theory Spec2Isabelle
  imports Complex_Main "HOL-Library.Word" "HOL-Library.Sublist" "HOL-Library.Multiset"
begin

section \<open>JavaScript values\<close>

text \<open>
  A JavaScript string is a sequence of 16-bit code units. The literals of the source
  are ASCII; \<open>str\<close> turns a literal into its code units.
\<close>

type_synonym js_string = "16 word list"

definition str :: "string \<Rightarrow> js_string" where
  "str s = map of_char s"

text \<open>
  \<open>String.prototype.trim\<close> strips WhiteSpace and LineTerminator code points from both
  ends (ECMAScript: TAB, VT, FF, SP, NBSP, ZWNBSP, the Unicode space separators, LF, CR,
  LS, PS). All of them are single code units.
\<close>

definition isWhiteSpace :: "16 word \<Rightarrow> bool" where
  "isWhiteSpace u = (u \<in> set
     [0x0009, 0x000A, 0x000B, 0x000C, 0x000D, 0x0020, 0x00A0, 0x1680,
      0x2000, 0x2001, 0x2002, 0x2003, 0x2004, 0x2005, 0x2006, 0x2007,
      0x2008, 0x2009, 0x200A, 0x2028, 0x2029, 0x202F, 0x205F, 0x3000, 0xFEFF])"

definition trim :: "js_string \<Rightarrow> js_string" where
  "trim s = rev (dropWhile isWhiteSpace (rev (dropWhile isWhiteSpace s)))"

text \<open>
  The numbers \<open>response.json()\<close> can deliver: a finite double, taken as the rational
  it denotes, or an infinity (a literal such as \<open>1e999\<close> overflows). JSON has no
  literal for NaN, so NaN only appears as the result of an operation.
\<close>

datatype js_number = Finite rat | PosInfinity | NegInfinity

text \<open>The value of a parsed JSON text. An object is the table of its own properties.\<close>

datatype json =
    JNull
  | JBoolean bool
  | JNumber js_number
  | JString js_string
  | JArray "json list"
  | JObject "(js_string \<times> json) list"


section \<open>The data model (types module)\<close>

datatype AnimalCategory = Mammals | Birds | Reptiles

datatype FilterCategory = All | Category AnimalCategory

datatype Theme = light | dark

record ExtinctionEvent =
  event_id :: js_number
  year :: js_number
  title :: js_string
  description :: js_string
  imageURL :: js_string
  category :: AnimalCategory
  location :: js_string
  cause :: js_string


section \<open>Modal state\<close>

subsection \<open>ModalComponent (modal.ts)\<close>

text \<open>
  The fields of the class, and the part of the document its methods write: the classes
  and \<open>aria-hidden\<close> of the modal element, the event drawn into the content region, and
  \<open>document.body.style.overflow\<close> (the scroll lock).
\<close>

record ModalComponent =
  isOpen :: bool
  currentEvent :: "ExtinctionEvent option"
  modalContent :: "ExtinctionEvent option"
  classHidden :: bool
  classActive :: bool
  ariaHidden :: bool
  bodyOverflow :: js_string

definition renderModalContent :: "ExtinctionEvent \<Rightarrow> ModalComponent \<Rightarrow> ModalComponent" where
  "renderModalContent event m = m\<lparr>modalContent := Some event\<rparr>"

definition showModal :: "ModalComponent \<Rightarrow> ModalComponent" where
  "showModal m = m\<lparr>classHidden := False, classActive := True, ariaHidden := False,
     bodyOverflow := str ''hidden'', isOpen := True\<rparr>"

definition hideModal :: "ModalComponent \<Rightarrow> ModalComponent" where
  "hideModal m = m\<lparr>classHidden := True, classActive := False, ariaHidden := True,
     bodyOverflow := str '''', isOpen := False\<rparr>"

definition modal_open :: "ExtinctionEvent \<Rightarrow> ModalComponent \<Rightarrow> ModalComponent" where
  "modal_open event m = showModal (renderModalContent event (m\<lparr>currentEvent := Some event\<rparr>))"

definition modal_close :: "ModalComponent \<Rightarrow> ModalComponent" where
  "modal_close m = (if \<not> isOpen m then m else (hideModal m)\<lparr>currentEvent := None\<rparr>)"

definition isModalOpen :: "ModalComponent \<Rightarrow> bool" where
  "isModalOpen m = isOpen m"

definition getCurrentEvent :: "ModalComponent \<Rightarrow> ExtinctionEvent option" where
  "getCurrentEvent m = currentEvent m"

text \<open>
  The state the constructor leaves: the field initialisers, and the document as the
  page delivers it (whatever it is, given as a parameter).
\<close>

definition modal_new :: "ExtinctionEvent option \<Rightarrow> bool \<Rightarrow> bool \<Rightarrow> bool \<Rightarrow> js_string \<Rightarrow> ModalComponent" where
  "modal_new content hid act aria ovf =
     \<lparr>isOpen = False, currentEvent = None, modalContent = content,
      classHidden = hid, classActive = act, ariaHidden = aria, bodyOverflow = ovf\<rparr>"

subsection \<open>useModal (hooks/useModal.ts)\<close>

record useModal_state =
  hook_isOpen :: bool
  selectedEvent :: "ExtinctionEvent option"
  hook_bodyOverflow :: js_string

definition openModal :: "ExtinctionEvent \<Rightarrow> useModal_state \<Rightarrow> useModal_state" where
  "openModal event s = s\<lparr>selectedEvent := Some event, hook_isOpen := True,
     hook_bodyOverflow := str ''hidden''\<rparr>"

definition closeModal :: "useModal_state \<Rightarrow> useModal_state" where
  "closeModal s = s\<lparr>hook_isOpen := False, selectedEvent := None, hook_bodyOverflow := str ''''\<rparr>"

definition useModal_initial :: "js_string \<Rightarrow> useModal_state" where
  "useModal_initial ovf = \<lparr>hook_isOpen = False, selectedEvent = None, hook_bodyOverflow = ovf\<rparr>"

subsection \<open>Sequences of calls\<close>

datatype modal_call = Open ExtinctionEvent | Close

fun modal_step :: "ModalComponent \<Rightarrow> modal_call \<Rightarrow> ModalComponent" where
  "modal_step m (Open e) = modal_open e m"
| "modal_step m Close = modal_close m"

fun useModal_step :: "useModal_state \<Rightarrow> modal_call \<Rightarrow> useModal_state" where
  "useModal_step s (Open e) = openModal e s"
| "useModal_step s Close = closeModal s"

definition modal_run :: "modal_call list \<Rightarrow> ModalComponent \<Rightarrow> ModalComponent" where
  "modal_run calls m = foldl modal_step m calls"

definition useModal_run :: "modal_call list \<Rightarrow> useModal_state \<Rightarrow> useModal_state" where
  "useModal_run calls s = foldl useModal_step s calls"


section \<open>Theme state\<close>

subsection \<open>ThemeComponent (components/theme)\<close>

text \<open>
  The component's field and callback, the parts of the page it writes (the
  \<open>dark-theme\<close> class of the body, the \<open>theme-color\<close> meta element, the toggle button),
  and its environment: the entry of \<open>localStorage\<close> under the component's key, whether
  the storage raises on access, and \<open>window.matchMedia\<close> (\<open>None\<close> where the platform
  has none, else whether \<open>prefers-color-scheme: dark\<close> matches). Calls that leave no
  state behind are counted or logged: the values handed to \<open>setItem\<close>, the themes
  handed to the listener, and the button's scale animation.
\<close>

record ThemeComponent =
  currentTheme :: Theme
  onThemeChange :: bool
  bodyDarkTheme :: bool
  metaThemeColor :: "js_string option"
  toggleText :: js_string
  toggleLabel :: js_string
  toggleAnimations :: nat
  storageItem :: "js_string option"
  storageThrows :: bool
  setItemCalls :: "js_string list"
  listenerCalls :: "Theme list"
  matchMedia :: "bool option"

definition themeName :: "Theme \<Rightarrow> js_string" where
  "themeName t = (case t of light \<Rightarrow> str ''light'' | dark \<Rightarrow> str ''dark'')"

definition themeIcon :: "Theme \<Rightarrow> js_string" where
  "themeIcon t = (case t of light \<Rightarrow> [0xD83C, 0xDF19] | dark \<Rightarrow> [0x2600, 0xFE0F])"

definition themeLabel :: "Theme \<Rightarrow> js_string" where
  "themeLabel t = (case t of light \<Rightarrow> str ''Switch to dark theme''
                           | dark \<Rightarrow> str ''Switch to light theme'')"

definition updateMetaThemeColor :: "Theme \<Rightarrow> ThemeComponent \<Rightarrow> ThemeComponent" where
  "updateMetaThemeColor theme c =
     c\<lparr>metaThemeColor := Some (if theme = dark then str ''#1a1a1a'' else str ''#f5f5f5'')\<rparr>"

definition applyTheme :: "Theme \<Rightarrow> ThemeComponent \<Rightarrow> ThemeComponent" where
  "applyTheme theme c =
     updateMetaThemeColor theme
       (if theme = dark then c\<lparr>bodyDarkTheme := True\<rparr> else c\<lparr>bodyDarkTheme := False\<rparr>)"

definition updateToggleButton :: "Theme \<Rightarrow> ThemeComponent \<Rightarrow> ThemeComponent" where
  "updateToggleButton theme c =
     c\<lparr>toggleText := themeIcon theme, toggleLabel := themeLabel theme,
       toggleAnimations := toggleAnimations c + 1\<rparr>"

text \<open>\<open>setItem\<close> is called inside \<open>try\<close>; when it raises, the entry stays as it was.\<close>

definition saveThemePreference :: "Theme \<Rightarrow> ThemeComponent \<Rightarrow> ThemeComponent" where
  "saveThemePreference theme c =
     (let c' = c\<lparr>setItemCalls := setItemCalls c @ [themeName theme]\<rparr>
      in if storageThrows c then c' else c'\<lparr>storageItem := Some (themeName theme)\<rparr>)"

definition setTheme :: "Theme \<Rightarrow> bool \<Rightarrow> ThemeComponent \<Rightarrow> ThemeComponent" where
  "setTheme theme saveToStorage c =
     (if currentTheme c = theme then c
      else
        let c1 = c\<lparr>currentTheme := theme\<rparr>;
            c2 = applyTheme theme c1;
            c3 = updateToggleButton theme c2;
            c4 = (if saveToStorage then saveThemePreference theme c3 else c3)
        in if onThemeChange c4 then c4\<lparr>listenerCalls := listenerCalls c4 @ [theme]\<rparr> else c4)"

definition toggleTheme :: "ThemeComponent \<Rightarrow> ThemeComponent" where
  "toggleTheme c = setTheme (if currentTheme c = light then dark else light) True c"

definition isValidTheme :: "js_string option \<Rightarrow> Theme option" where
  "isValidTheme v =
     (if v = Some (str ''light'') then Some light
      else if v = Some (str ''dark'') then Some dark else None)"

definition loadThemePreference :: "ThemeComponent \<Rightarrow> Theme option" where
  "loadThemePreference c = (if storageThrows c then None else isValidTheme (storageItem c))"

definition detectSystemTheme :: "ThemeComponent \<Rightarrow> Theme" where
  "detectSystemTheme c =
     (case matchMedia c of Some m \<Rightarrow> (if m then dark else light) | None \<Rightarrow> light)"

definition initializeTheme :: "ThemeComponent \<Rightarrow> ThemeComponent" where
  "initializeTheme c =
     (let savedTheme = loadThemePreference c;
          initialTheme = (case savedTheme of Some t \<Rightarrow> t | None \<Rightarrow> detectSystemTheme c)
      in setTheme initialTheme False c)"

text \<open>
  The constructor runs \<open>initializeTheme\<close> on the freshly built object: \<open>currentTheme\<close>
  has its initialiser \<open>'light'\<close>, nothing has been logged, and the page and the
  environment are what they are.
\<close>

definition theme_new ::
  "bool \<Rightarrow> bool \<Rightarrow> js_string option \<Rightarrow> js_string \<Rightarrow> js_string \<Rightarrow>
   js_string option \<Rightarrow> bool \<Rightarrow> bool option \<Rightarrow> ThemeComponent" where
  "theme_new listener bodyDark meta txt lbl item throws mm =
     initializeTheme
       \<lparr>currentTheme = light, onThemeChange = listener, bodyDarkTheme = bodyDark,
        metaThemeColor = meta, toggleText = txt, toggleLabel = lbl, toggleAnimations = 0,
        storageItem = item, storageThrows = throws, setItemCalls = [], listenerCalls = [],
        matchMedia = mm\<rparr>"

subsection \<open>The plain script (stage 3)\<close>

text \<open>
  The script keeps no theme variable: the theme is the \<open>dark-theme\<close> class of the
  body. Its storage key is \<open>theme\<close>. Neither function catches what the storage raises;
  \<open>toggleTheme\<close> has written the page before it calls \<open>setItem\<close>, and
  \<open>initializeTheme\<close> has written nothing before it calls \<open>getItem\<close>.
\<close>

record script_page =
  page_darkTheme :: bool
  page_toggleText :: js_string
  page_toggleLabel :: js_string
  page_storageItem :: "js_string option"
  page_storageThrows :: bool

definition script_theme :: "script_page \<Rightarrow> Theme" where
  "script_theme p = (if page_darkTheme p then dark else light)"

definition script_toggleTheme :: "script_page \<Rightarrow> script_page" where
  "script_toggleTheme p =
     (let p1 = p\<lparr>page_darkTheme := \<not> page_darkTheme p\<rparr>;
          isDark = page_darkTheme p1;
          p2 = p1\<lparr>page_toggleText := (if isDark then [0x2600, 0xFE0F] else [0xD83C, 0xDF19]),
                  page_toggleLabel := (if isDark then str ''Switch to light theme''
                                       else str ''Switch to dark theme'')\<rparr>
      in if page_storageThrows p2 then p2
         else p2\<lparr>page_storageItem := Some (if isDark then str ''dark'' else str ''light'')\<rparr>)"

definition script_initializeTheme :: "script_page \<Rightarrow> script_page" where
  "script_initializeTheme p =
     (if page_storageThrows p then p
      else if page_storageItem p = Some (str ''dark'')
      then p\<lparr>page_darkTheme := True, page_toggleText := [0x2600, 0xFE0F],
             page_toggleLabel := str ''Switch to light theme''\<rparr>
      else p\<lparr>page_toggleText := [0xD83C, 0xDF19],
             page_toggleLabel := str ''Switch to dark theme''\<rparr>)"

subsection \<open>The order of precedence, as the specification words it\<close>

text \<open>
  A persisted value counts as a preference only when it is one of the two literals; the
  platform may or may not report a preference.
\<close>

definition persistedPreference :: "js_string option \<Rightarrow> Theme option" where
  "persistedPreference v =
     (case v of None \<Rightarrow> None
      | Some s \<Rightarrow> (if s = str ''light'' then Some light
                   else if s = str ''dark'' then Some dark else None))"

definition platformPreference :: "bool option \<Rightarrow> Theme option" where
  "platformPreference mm = map_option (\<lambda>m. if m then dark else light) mm"

definition themePrecedence :: "Theme option \<Rightarrow> Theme option \<Rightarrow> Theme" where
  "themePrecedence persisted platform =
     (case persisted of Some t \<Rightarrow> t
      | None \<Rightarrow> (case platform of Some t \<Rightarrow> t | None \<Rightarrow> light))"


section \<open>Event repository\<close>

subsection \<open>Errors and results\<close>

text \<open>
  One constructor for each place where the loaders raise, carrying what the message
  interpolates. \<open>FetchRejected\<close> and \<open>JsonRejected\<close> stand for the rejections of
  \<open>fetch\<close> and of \<open>response.json()\<close>, \<open>CannotReadProperty\<close> for the TypeError of
  reading a property of \<open>null\<close>, and \<open>TimelineErrorNotDefined\<close> for the
  ReferenceError of evaluating the name \<open>TimelineError\<close> where nothing binds it.
\<close>

datatype js_error =
    HttpStatus nat js_string
  | FetchRejected
  | JsonRejected
  | CannotReadProperty
  | ResponseNotObject
  | ResponseMissingEvents
  | EventNotObject nat
  | MissingRequiredField nat string
  | MustBeValidNumber nat string
  | MustBeNonEmptyString nat string
  | MustBeOneOfCategories nat string
  | EventsNotArray
  | InvalidEventAtIndex nat
  | TimelineErrorNotDefined

text \<open>The index and the field name that an error's message names, if any.\<close>

fun error_index :: "js_error \<Rightarrow> nat option" where
  "error_index (EventNotObject i) = Some i"
| "error_index (MissingRequiredField i f) = Some i"
| "error_index (MustBeValidNumber i f) = Some i"
| "error_index (MustBeNonEmptyString i f) = Some i"
| "error_index (MustBeOneOfCategories i f) = Some i"
| "error_index (InvalidEventAtIndex i) = Some i"
| "error_index e = None"

fun error_field :: "js_error \<Rightarrow> string option" where
  "error_field (MissingRequiredField i f) = Some f"
| "error_field (MustBeValidNumber i f) = Some f"
| "error_field (MustBeNonEmptyString i f) = Some f"
| "error_field (MustBeOneOfCategories i f) = Some f"
| "error_field e = None"

text \<open>A \<open>throw\<close> ends the computation: the rest runs only on a value.\<close>

definition and_then :: "'e + 'a \<Rightarrow> ('a \<Rightarrow> 'e + 'b) \<Rightarrow> 'e + 'b" where
  "and_then r f = (case r of Inl e \<Rightarrow> Inl e | Inr v \<Rightarrow> f v)"

text \<open>
  What \<open>fetch\<close> resolves to: the status line, and the parsed body (\<open>None\<close> when the
  body is not JSON). A rejected \<open>fetch\<close> is \<open>None\<close> in place of the response.
\<close>

record Response =
  response_ok :: bool
  response_status :: nat
  response_statusText :: js_string
  response_json :: "json option"

subsection \<open>Sorting\<close>

text \<open>
  \<open>a.year - b.year\<close>. The difference of two doubles has the sign of the exact
  difference and is zero only for equal operands, so the finite case is the exact
  difference. \<open>None\<close> is NaN (an infinity minus itself).
\<close>

fun js_minus :: "js_number \<Rightarrow> js_number \<Rightarrow> js_number option" where
  "js_minus (Finite a) (Finite b) = Some (Finite (a - b))"
| "js_minus (Finite a) PosInfinity = Some NegInfinity"
| "js_minus (Finite a) NegInfinity = Some PosInfinity"
| "js_minus PosInfinity (Finite b) = Some PosInfinity"
| "js_minus PosInfinity NegInfinity = Some PosInfinity"
| "js_minus PosInfinity PosInfinity = None"
| "js_minus NegInfinity (Finite b) = Some NegInfinity"
| "js_minus NegInfinity PosInfinity = Some NegInfinity"
| "js_minus NegInfinity NegInfinity = None"

text \<open>
  \<open>Array.prototype.sort\<close> is the platform's. ECMAScript has it stable, and reads the
  comparator's result through SortCompare: a NaN counts as zero, a positive result
  puts the second argument first. The model is the insertion sort with that reading:
  an element moves behind exactly those it compares positive with.
\<close>

fun positive :: "js_number option \<Rightarrow> bool" where
  "positive (Some (Finite r)) = (0 < r)"
| "positive (Some PosInfinity) = True"
| "positive (Some NegInfinity) = False"
| "positive None = False"

fun insert_sorted :: "('a \<Rightarrow> 'a \<Rightarrow> js_number option) \<Rightarrow> 'a \<Rightarrow> 'a list \<Rightarrow> 'a list" where
  "insert_sorted comparefn x [] = [x]"
| "insert_sorted comparefn x (y # ys) =
     (if positive (comparefn x y) then y # insert_sorted comparefn x ys else x # y # ys)"

definition array_sort :: "('a \<Rightarrow> 'a \<Rightarrow> js_number option) \<Rightarrow> 'a list \<Rightarrow> 'a list" where
  "array_sort comparefn xs = foldr (insert_sorted comparefn) xs []"

definition sortEventsByYear :: "ExtinctionEvent list \<Rightarrow> ExtinctionEvent list" where
  "sortEventsByYear events = array_sort (\<lambda>a b. js_minus (year a) (year b)) events"

text \<open>The order of the numbers.\<close>

fun number_le :: "js_number \<Rightarrow> js_number \<Rightarrow> bool" where
  "number_le NegInfinity y = True"
| "number_le x PosInfinity = True"
| "number_le (Finite a) (Finite b) = (a \<le> b)"
| "number_le x y = False"

subsection \<open>DataFetcher (utils/fetcher)\<close>

text \<open>
  The class \<open>TimelineError\<close> of the types module has a code and the original error
  beside its message. \<open>createTimelineError\<close> means to wrap what was raised in it:
  both of its branches evaluate \<open>new (TimelineError as any)(...)\<close>. The module
  imports \<open>TimelineError\<close> with \<open>import type\<close>, and such an import is erased: at
  run time the name has no binding, and evaluating it raises a ReferenceError before
  anything is constructed. So the function raises on every argument and returns no
  \<open>TimelineError\<close>.
\<close>

record TimelineError =
  code :: string
  originalError :: js_error

definition createTimelineError :: "js_error \<Rightarrow> js_error + TimelineError" where
  "createTimelineError error = Inl TimelineErrorNotDefined"

fun isObject :: "json \<Rightarrow> bool" where
  "isObject (JObject obj) = True"
| "isObject v = False"

text \<open>
  A property read: \<open>None\<close> is \<open>undefined\<close>. Of the values of a parsed JSON text only
  objects have the properties the loaders read.
\<close>

fun property :: "json \<Rightarrow> string \<Rightarrow> json option" where
  "property (JObject obj) name = map_of obj (str name)"
| "property v name = None"

definition validateString :: "json option \<Rightarrow> nat \<Rightarrow> string \<Rightarrow> js_error + js_string" where
  "validateString v index field =
     (case v of
        Some (JString s) \<Rightarrow>
          (if trim s = [] then Inl (MustBeNonEmptyString index field) else Inr (trim s))
      | _ \<Rightarrow> Inl (MustBeNonEmptyString index field))"

definition validateNumber :: "json option \<Rightarrow> nat \<Rightarrow> string \<Rightarrow> js_error + js_number" where
  "validateNumber v index field =
     (case v of
        Some (JNumber (Finite r)) \<Rightarrow> Inr (Finite r)
      | _ \<Rightarrow> Inl (MustBeValidNumber index field))"

definition toCategory :: "js_string \<Rightarrow> AnimalCategory option" where
  "toCategory s =
     (if s = str ''Mammals'' then Some Mammals
      else if s = str ''Birds'' then Some Birds
      else if s = str ''Reptiles'' then Some Reptiles else None)"

definition validateCategory :: "json option \<Rightarrow> nat \<Rightarrow> string \<Rightarrow> js_error + AnimalCategory" where
  "validateCategory v index field =
     (case v of
        Some (JString s) \<Rightarrow>
          (case toCategory s of Some c \<Rightarrow> Inr c
           | None \<Rightarrow> Inl (MustBeOneOfCategories index field))
      | _ \<Rightarrow> Inl (MustBeOneOfCategories index field))"

definition requiredFields :: "string list" where
  "requiredFields = [''id'', ''year'', ''title'', ''description'',
                     ''imageURL'', ''category'', ''location'', ''cause'']"

text \<open>\<open>!(field in event) || event[field] === null || event[field] === undefined\<close>\<close>

definition isMissing :: "json \<Rightarrow> string \<Rightarrow> bool" where
  "isMissing event field =
     (case property event field of None \<Rightarrow> True | Some JNull \<Rightarrow> True | Some v \<Rightarrow> False)"

definition validateEvent :: "json \<Rightarrow> nat \<Rightarrow> js_error + ExtinctionEvent" where
  "validateEvent event index =
     (if \<not> isObject event then Inl (EventNotObject index)
      else case find (isMissing event) requiredFields of
        Some field \<Rightarrow> Inl (MissingRequiredField index field)
      | None \<Rightarrow>
          and_then (validateNumber (property event ''id'') index ''id'') (\<lambda>v_id.
          and_then (validateNumber (property event ''year'') index ''year'') (\<lambda>v_year.
          and_then (validateString (property event ''title'') index ''title'') (\<lambda>v_title.
          and_then (validateString (property event ''description'') index ''description'') (\<lambda>v_description.
          and_then (validateString (property event ''imageURL'') index ''imageURL'') (\<lambda>v_imageURL.
          and_then (validateCategory (property event ''category'') index ''category'') (\<lambda>v_category.
          and_then (validateString (property event ''location'') index ''location'') (\<lambda>v_location.
          and_then (validateString (property event ''cause'') index ''cause'') (\<lambda>v_cause.
            Inr \<lparr>event_id = v_id, year = v_year, title = v_title,
                 description = v_description, imageURL = v_imageURL,
                 category = v_category, location = v_location, cause = v_cause\<rparr>)))))))))"

text \<open>
  \<open>data.events.map((event, index) => this.validateEvent(event, index))\<close>: the elements
  in order, each with its index; the first that raises ends the map.
\<close>

fun validateEach :: "nat \<Rightarrow> json list \<Rightarrow> js_error + ExtinctionEvent list" where
  "validateEach index [] = Inr []"
| "validateEach index (event # rest) =
     and_then (validateEvent event index) (\<lambda>validated.
     and_then (validateEach (index + 1) rest) (\<lambda>others. Inr (validated # others)))"

definition validateResponse :: "json \<Rightarrow> js_error + ExtinctionEvent list" where
  "validateResponse data =
     (if \<not> isObject data then Inl ResponseNotObject
      else case property data ''events'' of
        Some (JArray events) \<Rightarrow> validateEach 0 events
      | _ \<Rightarrow> Inl ResponseMissingEvents)"

text \<open>
  \<open>fetchEvents\<close> rejects with whatever its \<open>catch\<close> block raises: the
  \<open>TimelineError\<close> it throws, or what \<open>createTimelineError\<close> raised before that.
\<close>

definition fetchEvents ::
  "Response option \<Rightarrow> (js_error + TimelineError) + ExtinctionEvent list" where
  "fetchEvents fetched =
     (case (case fetched of
              None \<Rightarrow> Inl FetchRejected
            | Some response \<Rightarrow>
                if \<not> response_ok response
                then Inl (HttpStatus (response_status response) (response_statusText response))
                else case response_json response of
                  None \<Rightarrow> Inl JsonRejected
                | Some data \<Rightarrow>
                    and_then (validateResponse data) (\<lambda>validatedData.
                      Inr (sortEventsByYear validatedData)))
      of Inl error \<Rightarrow>
           (case createTimelineError error of
              Inl raised \<Rightarrow> Inl (Inl raised)
            | Inr timelineError \<Rightarrow> Inl (Inr timelineError))
       | Inr sortedEvents \<Rightarrow> Inr sortedEvents)"

subsection \<open>useExtinctionEvents (React hook)\<close>

record useExtinctionEvents_state =
  hook_events :: "ExtinctionEvent list"
  hook_isLoading :: bool
  hook_error :: "js_error option"
  hook_activeFilter :: FilterCategory

definition isNumber :: "json option \<Rightarrow> bool" where
  "isNumber v = (case v of Some (JNumber n) \<Rightarrow> True | _ \<Rightarrow> False)"

definition isString :: "json option \<Rightarrow> bool" where
  "isString v = (case v of Some (JString s) \<Rightarrow> True | _ \<Rightarrow> False)"

text \<open>
  \<open>typeof event !== 'object' || event === null\<close> lets objects and arrays through; an
  array has none of the eight properties.
\<close>

definition isValidEvent :: "json \<Rightarrow> bool" where
  "isValidEvent event =
     (case event of
        JNull \<Rightarrow> False | JBoolean b \<Rightarrow> False | JNumber n \<Rightarrow> False | JString s \<Rightarrow> False
      | _ \<Rightarrow>
          isNumber (property event ''id'') \<and>
          isNumber (property event ''year'') \<and>
          isString (property event ''title'') \<and>
          isString (property event ''description'') \<and>
          isString (property event ''imageURL'') \<and>
          isString (property event ''category'') \<and>
          isString (property event ''location'') \<and>
          isString (property event ''cause'') \<and>
          (case property event ''category'' of
             Some (JString s) \<Rightarrow> toCategory s \<noteq> None | _ \<Rightarrow> False))"

text \<open>
  \<open>event as ExtinctionEvent\<close>: the same object, read through the type. The record
  holds its eight properties. A property of another kind than the type says, which
  \<open>isValidEvent\<close> leaves none of, reads as zero, the empty string or the first
  category.
\<close>

definition numberOf :: "json option \<Rightarrow> js_number" where
  "numberOf v = (case v of Some (JNumber n) \<Rightarrow> n | _ \<Rightarrow> Finite 0)"

definition stringOf :: "json option \<Rightarrow> js_string" where
  "stringOf v = (case v of Some (JString s) \<Rightarrow> s | _ \<Rightarrow> [])"

definition categoryOf :: "json option \<Rightarrow> AnimalCategory" where
  "categoryOf v =
     (case v of Some (JString s) \<Rightarrow> (case toCategory s of Some c \<Rightarrow> c | None \<Rightarrow> Mammals)
      | _ \<Rightarrow> Mammals)"

definition asExtinctionEvent :: "json \<Rightarrow> ExtinctionEvent" where
  "asExtinctionEvent event =
     \<lparr>event_id = numberOf (property event ''id''),
      year = numberOf (property event ''year''),
      title = stringOf (property event ''title''),
      description = stringOf (property event ''description''),
      imageURL = stringOf (property event ''imageURL''),
      category = categoryOf (property event ''category''),
      location = stringOf (property event ''location''),
      cause = stringOf (property event ''cause'')\<rparr>"

fun validateEventsFrom :: "nat \<Rightarrow> json list \<Rightarrow> js_error + ExtinctionEvent list" where
  "validateEventsFrom index [] = Inr []"
| "validateEventsFrom index (event # rest) =
     (if \<not> isValidEvent event then Inl (InvalidEventAtIndex index)
      else and_then (validateEventsFrom (index + 1) rest) (\<lambda>others.
             Inr (asExtinctionEvent event # others)))"

definition validateEvents :: "json option \<Rightarrow> js_error + ExtinctionEvent list" where
  "validateEvents events =
     (case events of
        Some (JArray elements) \<Rightarrow> validateEventsFrom 0 elements
      | _ \<Rightarrow> Inl EventsNotArray)"

text \<open>\<open>data.events\<close>: raises on \<open>null\<close>, is \<open>undefined\<close> on every other non-object.\<close>

definition dataEvents :: "json \<Rightarrow> js_error + json option" where
  "dataEvents data =
     (case data of JNull \<Rightarrow> Inl CannotReadProperty | _ \<Rightarrow> Inr (property data ''events''))"

text \<open>
  One run of the hook's \<open>fetchEvents\<close>, from the state it starts in to the state it
  leaves when the promise settles.
\<close>

definition hook_fetchEvents ::
  "Response option \<Rightarrow> useExtinctionEvents_state \<Rightarrow> useExtinctionEvents_state" where
  "hook_fetchEvents fetched s =
     (let s1 = s\<lparr>hook_isLoading := True, hook_error := None\<rparr>;
          s2 = (case (case fetched of
                        None \<Rightarrow> Inl FetchRejected
                      | Some response \<Rightarrow>
                          if \<not> response_ok response
                          then Inl (HttpStatus (response_status response)
                                      (response_statusText response))
                          else case response_json response of
                            None \<Rightarrow> Inl JsonRejected
                          | Some data \<Rightarrow>
                              and_then (dataEvents data) (\<lambda>events.
                              and_then (validateEvents events) (\<lambda>validatedEvents.
                                Inr (sortEventsByYear validatedEvents))))
                of Inr sortedEvents \<Rightarrow> s1\<lparr>hook_events := sortedEvents\<rparr>
                 | Inl err \<Rightarrow> s1\<lparr>hook_error := Some err\<rparr>)
      in s2\<lparr>hook_isLoading := False\<rparr>)"

definition useExtinctionEvents_initial :: useExtinctionEvents_state where
  "useExtinctionEvents_initial =
     \<lparr>hook_events = [], hook_isLoading = True, hook_error = None, hook_activeFilter = All\<rparr>"


section \<open>Filter state\<close>

subsection \<open>FilterComponent (filters.ts)\<close>

record FilterComponent =
  allEvents :: "ExtinctionEvent list"
  currentFilter :: FilterCategory

definition getFilteredEvents :: "FilterComponent \<Rightarrow> ExtinctionEvent list" where
  "getFilteredEvents fc =
     (if currentFilter fc = All then allEvents fc
      else filter (\<lambda>event. Category (category event) = currentFilter fc) (allEvents fc))"

text \<open>
  \<open>Record<FilterCategory, number>\<close> is a table from category names to counts.
  \<open>counts[k]++\<close> adds one to the entry of \<open>k\<close>. The key is the category of an
  event, which the literal always lists (see \<open>dom_counts_foldl\<close> below), so the
  increment never meets an absent entry; the model leaves the table alone there.
\<close>

type_synonym category_counts = "FilterCategory \<rightharpoonup> nat"

definition increment :: "category_counts \<Rightarrow> FilterCategory \<Rightarrow> category_counts" where
  "increment counts k = (case counts k of Some n \<Rightarrow> counts(k \<mapsto> n + 1) | None \<Rightarrow> counts)"

definition getCategoryCounts :: "FilterComponent \<Rightarrow> category_counts" where
  "getCategoryCounts fc =
     foldl (\<lambda>counts event. increment counts (Category (category event)))
       [All \<mapsto> length (allEvents fc), Category Mammals \<mapsto> 0,
        Category Birds \<mapsto> 0, Category Reptiles \<mapsto> 0]
       (allEvents fc)"

subsection \<open>The React application (useExtinctionEvents, App)\<close>

definition filteredEvents :: "ExtinctionEvent list \<Rightarrow> FilterCategory \<Rightarrow> ExtinctionEvent list" where
  "filteredEvents events activeFilter =
     (if activeFilter = All then events
      else filter (\<lambda>event. Category (category event) = activeFilter) events)"

definition eventCounts :: "ExtinctionEvent list \<Rightarrow> category_counts" where
  "eventCounts events =
     foldl (\<lambda>counts event. increment counts (Category (category event)))
       [All \<mapsto> length events, Category Mammals \<mapsto> 0,
        Category Birds \<mapsto> 0, Category Reptiles \<mapsto> 0]
       events"


section \<open>Renderer\<close>

subsection \<open>Timeline (React component)\<close>

text \<open>
  What the component returns: the loading spinner with its message, the error display
  with the message, the \<open>no-events\<close> block, or one event marker per event, each with
  its index and the number of events.
\<close>

record EventMarkerProps =
  marker_event :: ExtinctionEvent
  marker_index :: nat
  marker_totalEvents :: nat

datatype timeline_view =
    LoadingSpinner js_string
  | ErrorDisplay js_string
  | NoEvents
  | EventMarkers "EventMarkerProps list"

text \<open>\<open>if (error)\<close> on a \<open>string | null\<close>: true for a string that is not empty.\<close>

definition truthy :: "js_string option \<Rightarrow> bool" where
  "truthy v = (case v of None \<Rightarrow> False | Some s \<Rightarrow> s \<noteq> [])"

definition markers :: "ExtinctionEvent list \<Rightarrow> EventMarkerProps list" where
  "markers events =
     map (\<lambda>(index, event). \<lparr>marker_event = event, marker_index = index,
                              marker_totalEvents = length events\<rparr>)
       (enumerate 0 events)"

definition Timeline :: "ExtinctionEvent list \<Rightarrow> bool \<Rightarrow> js_string option \<Rightarrow> timeline_view" where
  "Timeline events isLoading error =
     (if isLoading then LoadingSpinner (str ''Loading extinction timeline...'')
      else if truthy error then ErrorDisplay (case error of Some m \<Rightarrow> m | None \<Rightarrow> [])
      else if length events = 0 then NoEvents
      else EventMarkers (markers events))"

subsection \<open>TimelineRenderer (components/renderer)\<close>

text \<open>
  The class writes two places of the page: the content of the timeline element and the
  \<open>display\<close> of the element with id \<open>loading\<close>, when the page has one.
\<close>

datatype timeline_content =
    InitialContent
  | EmptyState
  | ErrorMessage js_string
  | EventElements "(ExtinctionEvent \<times> nat) list"

record renderer_page =
  timelineContent :: timeline_content
  loadingDisplay :: "js_string option"

definition render :: "ExtinctionEvent list \<Rightarrow> renderer_page \<Rightarrow> renderer_page" where
  "render events p =
     (if length events = 0 then p\<lparr>timelineContent := EmptyState\<rparr>
      else p\<lparr>timelineContent := EventElements (map (\<lambda>(index, event). (event, index))
                                                  (enumerate 0 events))\<rparr>)"

definition renderError :: "js_string \<Rightarrow> renderer_page \<Rightarrow> renderer_page" where
  "renderError message p = p\<lparr>timelineContent := ErrorMessage message\<rparr>"

definition setLoading :: "bool \<Rightarrow> renderer_page \<Rightarrow> renderer_page" where
  "setLoading isLoading p =
     (case loadingDisplay p of
        Some d \<Rightarrow> p\<lparr>loadingDisplay := Some (if isLoading then str ''block'' else str ''none'')\<rparr>
      | None \<Rightarrow> p)"

record KeyboardEvent =
  key :: js_string
  key_defaultPrevented :: bool

text \<open>
  \<open>handleKeydown\<close> on the timeline element: the keyboard event, the class list of its
  target, and how often \<open>target.click()\<close> has been called.
\<close>

definition renderer_handleKeydown ::
  "KeyboardEvent \<Rightarrow> js_string list \<Rightarrow> nat \<Rightarrow> KeyboardEvent \<times> nat" where
  "renderer_handleKeydown event classList clicks =
     (if key event = str ''Enter'' \<or> key event = str '' ''
      then (if str ''event'' \<in> set classList
            then (event\<lparr>key_defaultPrevented := True\<rparr>, clicks + 1)
            else (event, clicks))
      else (event, clicks))"

subsection \<open>ExtinctionTimelineApp (the class application)\<close>

text \<open>
  The application's state object and the page its renderer writes. The constructor
  raises unless the renderer was found, so every application has one. The error
  handler takes the message of what was raised (\<open>None\<close> when it is not an
  \<open>Error\<close>).
\<close>

record ExtinctionTimelineApp =
  app_events :: "ExtinctionEvent list"
  app_activeCategory :: FilterCategory
  app_filteredEvents :: "ExtinctionEvent list"
  app_theme :: Theme
  app_isLoading :: bool
  app_error :: "js_string option"
  app_page :: renderer_page

definition app_new :: "renderer_page \<Rightarrow> ExtinctionTimelineApp" where
  "app_new page =
     \<lparr>app_events = [], app_activeCategory = All, app_filteredEvents = [], app_theme = light,
      app_isLoading = False, app_error = None, app_page = page\<rparr>"

definition renderTimeline :: "ExtinctionEvent list \<Rightarrow> ExtinctionTimelineApp \<Rightarrow> ExtinctionTimelineApp" where
  "renderTimeline events app = app\<lparr>app_page := render events (app_page app)\<rparr>"

definition setLoadingState :: "bool \<Rightarrow> ExtinctionTimelineApp \<Rightarrow> ExtinctionTimelineApp" where
  "setLoadingState isLoading app =
     (let app1 = app\<lparr>app_isLoading := isLoading\<rparr>
      in app1\<lparr>app_page := setLoading isLoading (app_page app1)\<rparr>)"

definition handleApplicationError :: "js_string option \<Rightarrow> ExtinctionTimelineApp \<Rightarrow> ExtinctionTimelineApp" where
  "handleApplicationError raised app =
     (let errorMessage = (case raised of Some message \<Rightarrow> message
                          | None \<Rightarrow> str ''An unexpected error occurred.'');
          app1 = app\<lparr>app_error := Some errorMessage, app_isLoading := False\<rparr>
      in app1\<lparr>app_page := setLoading False (renderError errorMessage (app_page app1))\<rparr>)"

definition handleFilterChange :: "ExtinctionEvent list \<Rightarrow> ExtinctionTimelineApp \<Rightarrow> ExtinctionTimelineApp" where
  "handleFilterChange filtered app =
     renderTimeline filtered (app\<lparr>app_filteredEvents := filtered\<rparr>)"

subsection \<open>EventMarker (React component)\<close>

text \<open>
  The component's handlers call the \<open>onClick\<close> prop. Inside \<open>handleKeyDown\<close> and
  \<open>handleLearnMoreClick\<close> the name \<open>event\<close> is the handler's own parameter, the DOM
  event; inside \<open>handleClick\<close>, which has no parameter, it is the prop. A handler's
  result here is the list of arguments it calls \<open>onClick\<close> with.
\<close>

record MouseEvent =
  propagationStopped :: bool

datatype onClick_argument =
    TheExtinctionEvent ExtinctionEvent
  | TheKeyboardEvent KeyboardEvent
  | TheMouseEvent MouseEvent

definition handleClick :: "ExtinctionEvent \<Rightarrow> onClick_argument list" where
  "handleClick event_prop = [TheExtinctionEvent event_prop]"

definition handleKeyDown :: "ExtinctionEvent \<Rightarrow> KeyboardEvent \<Rightarrow> onClick_argument list" where
  "handleKeyDown event_prop event =
     (if key event = str ''Enter'' \<or> key event = str '' ''
      then [TheKeyboardEvent (event\<lparr>key_defaultPrevented := True\<rparr>)]
      else [])"

definition handleLearnMoreClick :: "ExtinctionEvent \<Rightarrow> MouseEvent \<Rightarrow> onClick_argument list" where
  "handleLearnMoreClick event_prop event =
     [TheMouseEvent (event\<lparr>propagationStopped := True\<rparr>)]"


section \<open>The payload and the data model in the specification's words\<close>

text \<open>
  The top level the specification asks for: an object whose \<open>events\<close> is an array;
  and the elements of that array.
\<close>

definition hasEventsArray :: "json \<Rightarrow> bool" where
  "hasEventsArray data =
     (isObject data \<and> (case property data ''events'' of Some (JArray es) \<Rightarrow> True | _ \<Rightarrow> False))"

definition eventsOf :: "json \<Rightarrow> json list" where
  "eventsOf data = (case property data ''events'' of Some (JArray es) \<Rightarrow> es | _ \<Rightarrow> [])"

text \<open>
  An element is malformed when a required field is absent from it (every field is, of a
  value that is not an object), or holds a value of another primitive kind than the
  data model gives the field (a number for \<open>id\<close> and \<open>year\<close>, a string for the
  others), or when its \<open>category\<close> is a string outside the three categories. A
  payload is malformed when its top level is not as asked or an element is malformed.
\<close>

definition wrongKind :: "string \<Rightarrow> json \<Rightarrow> bool" where
  "wrongKind field v =
     (if field = ''id'' \<or> field = ''year''
      then (case v of JNumber n \<Rightarrow> False | _ \<Rightarrow> True)
      else (case v of JString s \<Rightarrow> False | _ \<Rightarrow> True))"

definition malformedEvent :: "json \<Rightarrow> bool" where
  "malformedEvent e =
     ((\<exists>field \<in> set requiredFields.
         case property e field of None \<Rightarrow> True | Some v \<Rightarrow> wrongKind field v)
      \<or> (case property e ''category'' of
            Some (JString s) \<Rightarrow> toCategory s = None | _ \<Rightarrow> False))"

definition malformedPayload :: "json \<Rightarrow> bool" where
  "malformedPayload data =
     (\<not> hasEventsArray data \<or> (\<exists>e \<in> set (eventsOf data). malformedEvent e))"

text \<open>
  The field an error names is at fault when it is missing or when the validator that
  \<open>validateEvent\<close> gives it raises on its value.
\<close>

definition fieldCheckFails :: "json \<Rightarrow> string \<Rightarrow> bool" where
  "fieldCheckFails event field =
     (isMissing event field \<or>
      (if field = ''id'' \<or> field = ''year''
       then isl (validateNumber (property event field) 0 field)
       else if field = ''category''
       then isl (validateCategory (property event field) 0 field)
       else isl (validateString (property event field) 0 field)))"

text \<open>
  The data model of the specification: the \<open>id\<close>s are integers, no two alike, the
  years are integers, and the four texts are not empty after trimming.
\<close>

definition isInteger :: "js_number \<Rightarrow> bool" where
  "isInteger n = (case n of Finite r \<Rightarrow> of_int \<lfloor>r\<rfloor> = r | _ \<Rightarrow> False)"

definition meetsDataModel :: "ExtinctionEvent list \<Rightarrow> bool" where
  "meetsDataModel events =
     (distinct (map event_id events) \<and>
      (\<forall>e \<in> set events. isInteger (event_id e) \<and> isInteger (year e) \<and>
         trim (title e) \<noteq> [] \<and> trim (description e) \<noteq> [] \<and>
         trim (location e) \<noteq> [] \<and> trim (cause e) \<noteq> []))"


section \<open>Example data\<close>

text \<open>
  The two records of the specification's scenario A, in the order of the payload
  (1936 before 1662), and a third record that shares the year 1936.
\<close>

definition tigerJson :: json where
  "tigerJson = JObject
     [(str ''id'', JNumber (Finite 1)), (str ''year'', JNumber (Finite 1936)),
      (str ''title'', JString (str ''Tasmanian Tiger'')),
      (str ''description'', JString (str ''The last known thylacine died in captivity.'')),
      (str ''imageURL'', JString (str ''images/thylacine.jpg'')),
      (str ''category'', JString (str ''Mammals'')),
      (str ''location'', JString (str ''Tasmania'')),
      (str ''cause'', JString (str ''Hunting''))]"

definition dodoJson :: json where
  "dodoJson = JObject
     [(str ''id'', JNumber (Finite 2)), (str ''year'', JNumber (Finite 1662)),
      (str ''title'', JString (str ''Dodo Bird'')),
      (str ''description'', JString (str ''A flightless bird.'')),
      (str ''imageURL'', JString (str ''images/dodo.jpg'')),
      (str ''category'', JString (str ''Birds'')),
      (str ''location'', JString (str ''Mauritius'')),
      (str ''cause'', JString (str ''Hunting''))]"

definition otherJson :: json where
  "otherJson = JObject
     [(str ''id'', JNumber (Finite 3)), (str ''year'', JNumber (Finite 1936)),
      (str ''title'', JString (str ''Another record of 1936'')),
      (str ''description'', JString (str ''Shares its year with the first record.'')),
      (str ''imageURL'', JString (str ''images/other.jpg'')),
      (str ''category'', JString (str ''Reptiles'')),
      (str ''location'', JString (str ''Elsewhere'')),
      (str ''cause'', JString (str ''Habitat loss''))]"

definition tasmanianTiger :: ExtinctionEvent where
  "tasmanianTiger =
     \<lparr>event_id = Finite 1, year = Finite 1936, title = str ''Tasmanian Tiger'',
      description = str ''The last known thylacine died in captivity.'',
      imageURL = str ''images/thylacine.jpg'', category = Mammals,
      location = str ''Tasmania'', cause = str ''Hunting''\<rparr>"

definition dodoBird :: ExtinctionEvent where
  "dodoBird =
     \<lparr>event_id = Finite 2, year = Finite 1662, title = str ''Dodo Bird'',
      description = str ''A flightless bird.'',
      imageURL = str ''images/dodo.jpg'', category = Birds,
      location = str ''Mauritius'', cause = str ''Hunting''\<rparr>"

definition otherRecord :: ExtinctionEvent where
  "otherRecord =
     \<lparr>event_id = Finite 3, year = Finite 1936, title = str ''Another record of 1936'',
      description = str ''Shares its year with the first record.'',
      imageURL = str ''images/other.jpg'', category = Reptiles,
      location = str ''Elsewhere'', cause = str ''Habitat loss''\<rparr>"

definition examplePayload :: json where
  "examplePayload = JObject [(str ''events'', JArray [tigerJson, dodoJson, otherJson])]"

definition okResponse :: "json \<Rightarrow> Response" where
  "okResponse data =
     \<lparr>response_ok = True, response_status = 200, response_statusText = str ''OK'',
      response_json = Some data\<rparr>"


text \<open>
  The dodo with blanks around its title; a record whose \<open>id\<close> and \<open>year\<close> have
  a fraction; a payload whose second element has nothing but an \<open>id\<close>.
\<close>

definition paddedJson :: json where
  "paddedJson = JObject
     [(str ''id'', JNumber (Finite 2)), (str ''year'', JNumber (Finite 1662)),
      (str ''title'', JString (str ''  Dodo Bird '')),
      (str ''description'', JString (str ''A flightless bird.'')),
      (str ''imageURL'', JString (str ''images/dodo.jpg'')),
      (str ''category'', JString (str ''Birds'')),
      (str ''location'', JString (str ''Mauritius'')),
      (str ''cause'', JString (str ''Hunting''))]"

definition fractionalJson :: json where
  "fractionalJson = JObject
     [(str ''id'', JNumber (Finite (1/2))), (str ''year'', JNumber (Finite (3873/2))),
      (str ''title'', JString (str ''Half a record'')),
      (str ''description'', JString (str ''Both numbers have a fraction.'')),
      (str ''imageURL'', JString (str ''images/half.jpg'')),
      (str ''category'', JString (str ''Birds'')),
      (str ''location'', JString (str ''Nowhere'')),
      (str ''cause'', JString (str ''Unknown''))]"

definition fractionalRecord :: ExtinctionEvent where
  "fractionalRecord =
     \<lparr>event_id = Finite (1/2), year = Finite (3873/2), title = str ''Half a record'',
      description = str ''Both numbers have a fraction.'',
      imageURL = str ''images/half.jpg'', category = Birds,
      location = str ''Nowhere'', cause = str ''Unknown''\<rparr>"

definition badPayload :: json where
  "badPayload = JObject [(str ''events'', JArray [tigerJson, JObject [(str ''id'', JNumber (Finite 2))]])]"


text \<open>
  A page with an empty timeline and a hidden loading element; and the class application
  after a load that failed (the loader rejects with the ReferenceError above) and a
  click on a filter button, which hands the filtered events, none, to
  \<open>handleFilterChange\<close>.
\<close>

definition emptyPage :: renderer_page where
  "emptyPage = \<lparr>timelineContent = InitialContent, loadingDisplay = Some (str ''none'')\<rparr>"

definition failedThenFiltered :: ExtinctionTimelineApp where
  "failedThenFiltered =
     handleFilterChange []
       (handleApplicationError (Some (str ''TimelineError is not defined''))
          (setLoadingState True (app_new emptyPage)))"


section \<open>Properties of the modal state\<close>

lemma modal_step_inv:
  "isOpen m = (currentEvent m \<noteq> None) \<Longrightarrow>
   isOpen (modal_step m c) = (currentEvent (modal_step m c) \<noteq> None)"
  by (cases c) (simp_all add: modal_open_def modal_close_def showModal_def hideModal_def
      renderModalContent_def)

lemma modal_run_inv:
  "isOpen m = (currentEvent m \<noteq> None) \<Longrightarrow>
   isOpen (modal_run calls m) = (currentEvent (modal_run calls m) \<noteq> None)"
  unfolding modal_run_def
proof (induction calls arbitrary: m)
  case Nil
  then show ?case by simp
next
  case (Cons c calls)
  have "isOpen (modal_step m c) = (currentEvent (modal_step m c) \<noteq> None)"
    using Cons.prems by (rule modal_step_inv)
  then show ?case using Cons.IH by simp
qed

lemma useModal_step_inv:
  "hook_isOpen s = (selectedEvent s \<noteq> None) \<Longrightarrow>
   hook_isOpen (useModal_step s c) = (selectedEvent (useModal_step s c) \<noteq> None)"
  by (cases c) (simp_all add: openModal_def closeModal_def)

lemma useModal_run_inv:
  "hook_isOpen s = (selectedEvent s \<noteq> None) \<Longrightarrow>
   hook_isOpen (useModal_run calls s) = (selectedEvent (useModal_run calls s) \<noteq> None)"
  unfolding useModal_run_def
proof (induction calls arbitrary: s)
  case Nil
  then show ?case by simp
next
  case (Cons c calls)
  have "hook_isOpen (useModal_step s c) = (selectedEvent (useModal_step s c) \<noteq> None)"
    using Cons.prems by (rule useModal_step_inv)
  then show ?case using Cons.IH by simp
qed

lemma modal_close_twice: "modal_close (modal_close m) = modal_close m"
  by (simp add: modal_close_def hideModal_def)

lemma closeModal_twice: "closeModal (closeModal s) = closeModal s"
  by (simp add: closeModal_def)

text \<open>
  C8. From the state the constructor (the hook's first render) leaves, after every
  sequence of open and close calls the modal is closed exactly when no event is
  selected, in the class and in the hook alike. Opening \<open>e1\<close> and then \<open>e2\<close> leaves
  \<open>e2\<close> selected; opening and then closing leaves no selection and the modal closed;
  a second close in a row changes nothing at all.
\<close>

theorem modal_invariant:
  "(\<not> isModalOpen (modal_run calls (modal_new c h a r v)))
     = (getCurrentEvent (modal_run calls (modal_new c h a r v)) = None)
   \<and> (\<not> hook_isOpen (useModal_run calls (useModal_initial v)))
     = (selectedEvent (useModal_run calls (useModal_initial v)) = None)
   \<and> getCurrentEvent (modal_open e2 (modal_open e1 m)) = Some e2
   \<and> selectedEvent (openModal e2 (openModal e1 s)) = Some e2
   \<and> getCurrentEvent (modal_close (modal_open e m)) = None
   \<and> \<not> isModalOpen (modal_close (modal_open e m))
   \<and> selectedEvent (closeModal (openModal e s)) = None
   \<and> \<not> hook_isOpen (closeModal (openModal e s))
   \<and> modal_close (modal_close m) = modal_close m
   \<and> closeModal (closeModal s) = closeModal s"
proof -
  have init: "isOpen (modal_new c h a r v) = (currentEvent (modal_new c h a r v) \<noteq> None)"
    by (simp add: modal_new_def)
  have hinit: "hook_isOpen (useModal_initial v) = (selectedEvent (useModal_initial v) \<noteq> None)"
    by (simp add: useModal_initial_def)
  have a: "(\<not> isModalOpen (modal_run calls (modal_new c h a r v)))
     = (getCurrentEvent (modal_run calls (modal_new c h a r v)) = None)"
    using modal_run_inv [OF init, of calls] by (simp add: isModalOpen_def getCurrentEvent_def)
  have b: "(\<not> hook_isOpen (useModal_run calls (useModal_initial v)))
     = (selectedEvent (useModal_run calls (useModal_initial v)) = None)"
    using useModal_run_inv [OF hinit, of calls] by simp
  have c: "getCurrentEvent (modal_open e2 (modal_open e1 m)) = Some e2"
    by (simp add: getCurrentEvent_def modal_open_def showModal_def renderModalContent_def)
  have d: "selectedEvent (openModal e2 (openModal e1 s)) = Some e2"
    by (simp add: openModal_def)
  have e: "getCurrentEvent (modal_close (modal_open e m)) = None"
    by (simp add: getCurrentEvent_def modal_close_def modal_open_def showModal_def
        hideModal_def renderModalContent_def)
  have f: "\<not> isModalOpen (modal_close (modal_open e m))"
    by (simp add: isModalOpen_def modal_close_def modal_open_def showModal_def
        hideModal_def renderModalContent_def)
  have g: "selectedEvent (closeModal (openModal e s)) = None"
    by (simp add: closeModal_def openModal_def)
  have h: "\<not> hook_isOpen (closeModal (openModal e s))"
    by (simp add: closeModal_def openModal_def)
  show ?thesis
    using a b c d e f g h modal_close_twice closeModal_twice by blast
qed

section \<open>Properties of the theme state\<close>

lemma setTheme_current: "setTheme (currentTheme c) b c = c"
  by (simp add: setTheme_def)

lemma currentTheme_setTheme: "currentTheme (setTheme t b c) = t"
  by (simp add: setTheme_def Let_def applyTheme_def updateMetaThemeColor_def
      updateToggleButton_def saveThemePreference_def)

lemma currentTheme_toggleTheme:
  "currentTheme (toggleTheme c) = (if currentTheme c = light then dark else light)"
  by (simp add: toggleTheme_def currentTheme_setTheme)

lemma script_theme_toggle:
  "script_theme (script_toggleTheme p) = (if script_theme p = light then dark else light)"
  by (simp add: script_theme_def script_toggleTheme_def Let_def)

text \<open>
  C6. In every state of the theme component, \<open>toggleTheme\<close> leaves the other theme and
  two toggles in a row leave the theme they started from; the same holds of the plain
  script's \<open>toggleTheme\<close>. \<open>setTheme\<close> with the theme that is already current returns
  the state untouched, whether or not saving was asked for: nothing is written to the
  page, no \<open>setItem\<close> call is made, no listener is called and no animation is started.
\<close>

theorem toggle_involution_setTheme_noop:
  "currentTheme (toggleTheme c) \<noteq> currentTheme c
   \<and> currentTheme (toggleTheme (toggleTheme c)) = currentTheme c
   \<and> script_theme (script_toggleTheme p) \<noteq> script_theme p
   \<and> script_theme (script_toggleTheme (script_toggleTheme p)) = script_theme p
   \<and> setTheme (currentTheme c) saveToStorage c = c
   \<and> setItemCalls (setTheme (currentTheme c) saveToStorage c) = setItemCalls c"
proof -
  have flip: "currentTheme (toggleTheme c) \<noteq> currentTheme c"
    by (cases "currentTheme c") (simp_all add: currentTheme_toggleTheme)
  have twice: "currentTheme (toggleTheme (toggleTheme c)) = currentTheme c"
    by (cases "currentTheme c") (simp_all add: currentTheme_toggleTheme)
  have sflip: "script_theme (script_toggleTheme p) \<noteq> script_theme p"
    by (cases "script_theme p") (simp_all add: script_theme_toggle)
  have stwice: "script_theme (script_toggleTheme (script_toggleTheme p)) = script_theme p"
    by (cases "script_theme p") (simp_all add: script_theme_toggle)
  show ?thesis
    using flip twice sflip stwice by (simp add: setTheme_current)
qed

lemma isValidTheme_persisted: "isValidTheme v = persistedPreference v"
  by (cases v) (simp_all add: isValidTheme_def persistedPreference_def)

text \<open>
  C7 as the code has it. The theme component starts with the valid persisted
  preference when there is one, else with what the platform reports, else with Light;
  a value that is neither literal, an absent entry and a storage that raises all count
  as no preference. The plain script never asks the platform: it turns the page dark
  when the persisted value is \<open>dark\<close>, and otherwise leaves the page's theme as it
  found it.
\<close>

theorem initial_theme_precedence:
  "currentTheme (theme_new listener bodyDark meta txt lbl item throws mm)
     = themePrecedence (if throws then None else persistedPreference item)
         (platformPreference mm)
   \<and> script_theme (script_initializeTheme p)
     = (if \<not> page_storageThrows p \<and> page_storageItem p = Some (str ''dark'') then dark
        else script_theme p)"
proof -
  have "currentTheme (theme_new listener bodyDark meta txt lbl item throws mm)
     = themePrecedence (if throws then None else persistedPreference item)
         (platformPreference mm)"
    by (cases mm)
      (simp_all add: theme_new_def initializeTheme_def currentTheme_setTheme
        loadThemePreference_def detectSystemTheme_def isValidTheme_persisted
        themePrecedence_def platformPreference_def split: option.splits)
  moreover have "script_theme (script_initializeTheme p)
     = (if \<not> page_storageThrows p \<and> page_storageItem p = Some (str ''dark'') then dark
        else script_theme p)"
    by (simp add: script_theme_def script_initializeTheme_def)
  ultimately show ?thesis by simp
qed

text \<open>
  The claim as stated fails on the plain script: with nothing persisted, on a page
  delivered light and a platform that reports a dark colour scheme, the precedence
  asks for Dark and the script's \<open>initializeTheme\<close> leaves Light.
\<close>

theorem script_ignores_platform_preference:
  "script_theme (script_initializeTheme
      \<lparr>page_darkTheme = False, page_toggleText = [], page_toggleLabel = [],
       page_storageItem = None, page_storageThrows = False\<rparr>) = light
   \<and> themePrecedence (persistedPreference None) (platformPreference (Some True)) = dark"
  by (simp add: script_theme_def script_initializeTheme_def themePrecedence_def
      persistedPreference_def platformPreference_def)

section \<open>Properties of the filter state\<close>

lemma increment_dom: "dom (increment counts k) = dom counts"
  by (auto simp: increment_def split: option.splits)

lemma increment_other: "k' \<noteq> k \<Longrightarrow> increment counts k k' = counts k'"
  by (simp add: increment_def split: option.splits)

lemma increment_same: "counts k = Some n \<Longrightarrow> increment counts k k = Some (n + 1)"
  by (simp add: increment_def)

lemma dom_counts_foldl:
  "dom (foldl (\<lambda>counts event. increment counts (Category (category event))) m evs) = dom m"
  by (induction evs arbitrary: m) (simp_all add: increment_dom)

lemma foldl_counts_All:
  "foldl (\<lambda>counts event. increment counts (Category (category event))) m evs All = m All"
  by (induction evs arbitrary: m) (simp_all add: increment_other)

lemma foldl_counts_Category:
  "m (Category c) = Some n \<Longrightarrow>
   foldl (\<lambda>counts event. increment counts (Category (category event))) m evs (Category c)
     = Some (n + length (filter (\<lambda>e. category e = c) evs))"
proof (induction evs arbitrary: m n)
  case Nil
  then show ?case by simp
next
  case (Cons e evs)
  show ?case
  proof (cases "category e = c")
    case True
    have "increment m (Category (category e)) (Category c) = Some (n + 1)"
      using Cons.prems True by (simp add: increment_same)
    then show ?thesis
      using Cons.IH [of "increment m (Category (category e))" "n + 1"] True by simp
  next
    case False
    have "increment m (Category (category e)) (Category c) = Some n"
      using Cons.prems False by (simp add: increment_other)
    then show ?thesis
      using Cons.IH [of "increment m (Category (category e))" n] False by simp
  qed
qed

lemma category_partition:
  "length (filter (\<lambda>e. category e = Mammals) evs)
   + length (filter (\<lambda>e. category e = Birds) evs)
   + length (filter (\<lambda>e. category e = Reptiles) evs) = length evs"
proof (induction evs)
  case Nil
  then show ?case by simp
next
  case (Cons e evs)
  then show ?case by (cases "category e") simp_all
qed

lemma dom_initial_counts:
  "dom [All \<mapsto> n, Category Mammals \<mapsto> 0::nat, Category Birds \<mapsto> 0, Category Reptiles \<mapsto> 0]
     = {All, Category Mammals, Category Birds, Category Reptiles}"
  by auto

lemma counts_foldl_summary:
  fixes evs :: "ExtinctionEvent list" and n :: nat
  defines "r \<equiv> foldl (\<lambda>counts event. increment counts (Category (category event)))
       [All \<mapsto> n, Category Mammals \<mapsto> 0, Category Birds \<mapsto> 0, Category Reptiles \<mapsto> 0] evs"
  shows "dom r = {All, Category Mammals, Category Birds, Category Reptiles}"
    and "r All = Some n"
    and "r (Category c) = Some (length (filter (\<lambda>e. category e = c) evs))"
proof -
  show "dom r = {All, Category Mammals, Category Birds, Category Reptiles}"
    unfolding r_def dom_counts_foldl by (rule dom_initial_counts)
  show "r All = Some n"
    unfolding r_def foldl_counts_All by simp
  have "[All \<mapsto> n, Category Mammals \<mapsto> 0, Category Birds \<mapsto> 0, Category Reptiles \<mapsto> 0]
          (Category c) = Some 0"
    by (cases c) simp_all
  then show "r (Category c) = Some (length (filter (\<lambda>e. category e = c) evs))"
    unfolding r_def
    using foldl_counts_Category
      [of "[All \<mapsto> n, Category Mammals \<mapsto> 0, Category Birds \<mapsto> 0, Category Reptiles \<mapsto> 0]"
        c 0 evs]
    by simp
qed

text \<open>
  C4. Whatever the list of events, the filter component and the React hook return, for
  a category, the events of that category in their order in the list, each as often as
  it occurs there, and for \<open>All\<close> the list itself; the result is always a
  sub-sequence of the list.
\<close>

theorem filtered_events_exact:
  "getFilteredEvents \<lparr>allEvents = evs, currentFilter = Category c\<rparr>
     = filter (\<lambda>e. category e = c) evs
   \<and> getFilteredEvents \<lparr>allEvents = evs, currentFilter = All\<rparr> = evs
   \<and> filteredEvents evs (Category c) = filter (\<lambda>e. category e = c) evs
   \<and> filteredEvents evs All = evs
   \<and> subseq (getFilteredEvents \<lparr>allEvents = evs, currentFilter = f\<rparr>) evs
   \<and> subseq (filteredEvents evs f) evs"
  by (simp add: getFilteredEvents_def filteredEvents_def)

text \<open>
  C5. For every list of events, the counts of the filter component and of the React
  application have exactly the four keys \<open>All\<close>, \<open>Mammals\<close>, \<open>Birds\<close>, \<open>Reptiles\<close>; the
  entry of \<open>All\<close> is the number of events; the entry of a category is the number of
  events of that category, hence zero for a category no event has; and the three
  category entries add up to the number of events.
\<close>

theorem category_counts_total:
  "dom (getCategoryCounts fc) = {All, Category Mammals, Category Birds, Category Reptiles}
   \<and> getCategoryCounts fc All = Some (length (allEvents fc))
   \<and> getCategoryCounts fc (Category c)
       = Some (length (filter (\<lambda>e. category e = c) (allEvents fc)))
   \<and> (c \<notin> category ` set (allEvents fc) \<longrightarrow> getCategoryCounts fc (Category c) = Some 0)
   \<and> (\<exists>m b r. getCategoryCounts fc (Category Mammals) = Some m
         \<and> getCategoryCounts fc (Category Birds) = Some b
         \<and> getCategoryCounts fc (Category Reptiles) = Some r
         \<and> m + b + r = length (allEvents fc))
   \<and> dom (eventCounts evs) = {All, Category Mammals, Category Birds, Category Reptiles}
   \<and> eventCounts evs All = Some (length evs)
   \<and> eventCounts evs (Category c) = Some (length (filter (\<lambda>e. category e = c) evs))
   \<and> (c \<notin> category ` set evs \<longrightarrow> eventCounts evs (Category c) = Some 0)
   \<and> (\<exists>m b r. eventCounts evs (Category Mammals) = Some m
         \<and> eventCounts evs (Category Birds) = Some b
         \<and> eventCounts evs (Category Reptiles) = Some r
         \<and> m + b + r = length evs)"
proof -
  have unseen: "c \<notin> category ` set xs \<Longrightarrow> filter (\<lambda>e. category e = c) xs = []" for xs
    by (induction xs) auto
  have g1: "dom (getCategoryCounts fc) = {All, Category Mammals, Category Birds, Category Reptiles}"
    unfolding getCategoryCounts_def by (rule counts_foldl_summary(1))
  have g2: "getCategoryCounts fc All = Some (length (allEvents fc))"
    unfolding getCategoryCounts_def by (rule counts_foldl_summary(2))
  have g3: "getCategoryCounts fc (Category k)
       = Some (length (filter (\<lambda>e. category e = k) (allEvents fc)))" for k
    unfolding getCategoryCounts_def by (rule counts_foldl_summary(3))
  have g4: "c \<notin> category ` set (allEvents fc) \<longrightarrow> getCategoryCounts fc (Category c) = Some 0"
    by (simp add: g3 unseen)
  have g5: "\<exists>m b r. getCategoryCounts fc (Category Mammals) = Some m
         \<and> getCategoryCounts fc (Category Birds) = Some b
         \<and> getCategoryCounts fc (Category Reptiles) = Some r
         \<and> m + b + r = length (allEvents fc)"
    by (simp add: g3 category_partition)
  have e1: "dom (eventCounts evs) = {All, Category Mammals, Category Birds, Category Reptiles}"
    unfolding eventCounts_def by (rule counts_foldl_summary(1))
  have e2: "eventCounts evs All = Some (length evs)"
    unfolding eventCounts_def by (rule counts_foldl_summary(2))
  have e3: "eventCounts evs (Category k) = Some (length (filter (\<lambda>e. category e = k) evs))" for k
    unfolding eventCounts_def by (rule counts_foldl_summary(3))
  have e4: "c \<notin> category ` set evs \<longrightarrow> eventCounts evs (Category c) = Some 0"
    by (simp add: e3 unseen)
  have e5: "\<exists>m b r. eventCounts evs (Category Mammals) = Some m
         \<and> eventCounts evs (Category Birds) = Some b
         \<and> eventCounts evs (Category Reptiles) = Some r
         \<and> m + b + r = length evs"
    by (simp add: e3 category_partition)
  show ?thesis
    using g1 g2 g3 [of c] g4 g5 e1 e2 e3 [of c] e4 e5 by blast
qed

theorem category_counts_total_witness:
  "Reptiles \<notin> category ` set [tasmanianTiger, dodoBird]
   \<and> getCategoryCounts \<lparr>allEvents = [tasmanianTiger, dodoBird], currentFilter = All\<rparr>
        (Category Reptiles) = Some 0
   \<and> eventCounts [tasmanianTiger, dodoBird] (Category Reptiles) = Some 0
   \<and> getCategoryCounts \<lparr>allEvents = [tasmanianTiger, dodoBird], currentFilter = All\<rparr> All
        = Some 2
   \<and> eventCounts [tasmanianTiger, dodoBird] All = Some 2"
proof -
  have unseen: "Reptiles \<notin> category ` set [tasmanianTiger, dodoBird]"
    by (simp add: tasmanianTiger_def dodoBird_def)
  note total = category_counts_total
      [of "\<lparr>allEvents = [tasmanianTiger, dodoBird], currentFilter = All\<rparr>" Reptiles
          "[tasmanianTiger, dodoBird]"]
  have zero: "getCategoryCounts \<lparr>allEvents = [tasmanianTiger, dodoBird], currentFilter = All\<rparr>
        (Category Reptiles) = Some 0"
    using total unseen by (simp add: tasmanianTiger_def dodoBird_def)
  have zero': "eventCounts [tasmanianTiger, dodoBird] (Category Reptiles) = Some 0"
    using total unseen by (simp add: tasmanianTiger_def dodoBird_def)
  have two: "getCategoryCounts \<lparr>allEvents = [tasmanianTiger, dodoBird], currentFilter = All\<rparr>
        All = Some 2"
    using total by (simp add: numeral_2_eq_2)
  have two': "eventCounts [tasmanianTiger, dodoBird] All = Some 2"
    using total by (simp add: numeral_2_eq_2)
  show ?thesis using unseen zero zero' two two' by simp
qed

section \<open>Properties of the renderer\<close>

lemma map_marker_event: "map marker_event (markers events) = events"
proof -
  have "map marker_event (markers events) = map snd (enumerate 0 events)"
    by (simp add: markers_def comp_def case_prod_beta)
  then show ?thesis by (simp add: map_snd_enumerate)
qed

text \<open>
  C9 as the code has it. \<open>Timeline\<close> returns one view for every input. While
  loading it is the spinner, whatever the error and the events. When not loading, an
  error message (a string that is not empty) gives the error display with that
  message, whatever the events. With neither, no event gives the \<open>no-events\<close> block
  and one event or more gives the markers, one per event in order. \<open>null\<close> and the
  empty string both count as no error, as \<open>if (error)\<close> reads them. The class
  renderer has no such precedence. \<open>render\<close> and \<open>renderError\<close> each replace the
  content of the timeline by their own view, whatever was there and whatever the
  application's state says, so the last call decides; \<open>render\<close> shows the empty
  state for no event and the entries otherwise. \<open>setLoading\<close> shows or hides the
  loading element, if the page has one, and leaves the timeline as it is; the other
  two leave the loading element as it is. The application's filter handler renders its
  events and keeps the error it has.
\<close>

theorem timeline_view_precedence:
  "Timeline events True error = LoadingSpinner (str ''Loading extinction timeline...'')
   \<and> Timeline events False (Some (u # message)) = ErrorDisplay (u # message)
   \<and> Timeline [] False None = NoEvents
   \<and> Timeline [] False (Some []) = NoEvents
   \<and> Timeline (e # es) False None = EventMarkers (markers (e # es))
   \<and> Timeline (e # es) False (Some []) = EventMarkers (markers (e # es))
   \<and> map marker_event (markers (e # es)) = e # es
   \<and> timelineContent (render [] p) = EmptyState
   \<and> timelineContent (render (e # es) p)
       = EventElements (map (\<lambda>(index, event). (event, index)) (enumerate 0 (e # es)))
   \<and> timelineContent (renderError (u # message) (render events p)) = ErrorMessage (u # message)
   \<and> timelineContent (render events (renderError m p)) = timelineContent (render events p)
   \<and> timelineContent (setLoading b p) = timelineContent p
   \<and> loadingDisplay (render events p) = loadingDisplay p
   \<and> loadingDisplay (renderError m p) = loadingDisplay p
   \<and> loadingDisplay (setLoading b \<lparr>timelineContent = c, loadingDisplay = Some d\<rparr>)
       = Some (if b then str ''block'' else str ''none'')
   \<and> loadingDisplay (setLoading b \<lparr>timelineContent = c, loadingDisplay = None\<rparr>) = None
   \<and> app_error (handleFilterChange events app) = app_error app
   \<and> app_isLoading (handleFilterChange events app) = app_isLoading app
   \<and> timelineContent (app_page (handleFilterChange events app))
       = timelineContent (render events (app_page app))"
proof -
  have react: "Timeline events True error = LoadingSpinner (str ''Loading extinction timeline...'')
   \<and> Timeline events False (Some (u # message)) = ErrorDisplay (u # message)
   \<and> Timeline [] False None = NoEvents
   \<and> Timeline [] False (Some []) = NoEvents
   \<and> Timeline (e # es) False None = EventMarkers (markers (e # es))
   \<and> Timeline (e # es) False (Some []) = EventMarkers (markers (e # es))
   \<and> map marker_event (markers (e # es)) = e # es"
    by (simp add: Timeline_def truthy_def map_marker_event)
  have draw: "timelineContent (render [] p) = EmptyState
   \<and> timelineContent (render (e # es) p)
       = EventElements (map (\<lambda>(index, event). (event, index)) (enumerate 0 (e # es)))
   \<and> timelineContent (renderError (u # message) (render events p)) = ErrorMessage (u # message)
   \<and> timelineContent (render events (renderError m p)) = timelineContent (render events p)
   \<and> loadingDisplay (render events p) = loadingDisplay p
   \<and> loadingDisplay (renderError m p) = loadingDisplay p"
    by (simp add: render_def renderError_def)
  have loading: "timelineContent (setLoading b p) = timelineContent p
   \<and> loadingDisplay (setLoading b \<lparr>timelineContent = c, loadingDisplay = Some d\<rparr>)
       = Some (if b then str ''block'' else str ''none'')
   \<and> loadingDisplay (setLoading b \<lparr>timelineContent = c, loadingDisplay = None\<rparr>) = None"
    by (simp add: setLoading_def split: option.splits)
  have filter: "app_error (handleFilterChange events app) = app_error app
   \<and> app_isLoading (handleFilterChange events app) = app_isLoading app
   \<and> timelineContent (app_page (handleFilterChange events app))
       = timelineContent (render events (app_page app))"
    by (simp add: handleFilterChange_def renderTimeline_def)
  show ?thesis using react draw loading filter by simp
qed

text \<open>
  The claim as stated fails on the class renderer. After a failed load and a click on
  a filter button the application is not loading and has its error, a message that is
  not empty; the timeline shows the empty state, where the precedence asks for the
  error panel, which \<open>Timeline\<close> shows for the same three inputs.
\<close>

theorem class_renderer_last_call_wins:
  "app_isLoading failedThenFiltered = False
   \<and> app_error failedThenFiltered = Some (str ''TimelineError is not defined'')
   \<and> str ''TimelineError is not defined'' \<noteq> []
   \<and> app_filteredEvents failedThenFiltered = []
   \<and> timelineContent (app_page failedThenFiltered) = EmptyState
   \<and> EmptyState \<noteq> ErrorMessage (str ''TimelineError is not defined'')
   \<and> Timeline [] False (Some (str ''TimelineError is not defined''))
       = ErrorDisplay (str ''TimelineError is not defined'')"
  by (simp add: failedThenFiltered_def handleFilterChange_def renderTimeline_def
      handleApplicationError_def setLoadingState_def app_new_def emptyPage_def
      render_def renderError_def setLoading_def Timeline_def truthy_def str_def Let_def)

text \<open>
  C10 on \<open>EventMarker\<close>. A click on the entry calls \<open>onClick\<close> with the entry's
  extinction event. Enter and Space call \<open>onClick\<close> too, but with the keyboard event:
  in \<open>handleKeyDown\<close> the parameter \<open>event\<close> hides the prop of the same name. The
  Learn More button passes its mouse event in the same way. The class renderer's
  \<open>handleKeydown\<close> has no such argument to pass: on Enter or Space over an entry it
  clicks the entry, once.
\<close>

theorem keydown_passes_keyboard_event:
  "handleClick dodoBird = [TheExtinctionEvent dodoBird]
   \<and> handleKeyDown dodoBird \<lparr>key = str ''Enter'', key_defaultPrevented = False\<rparr>
       = [TheKeyboardEvent \<lparr>key = str ''Enter'', key_defaultPrevented = True\<rparr>]
   \<and> handleKeyDown dodoBird \<lparr>key = str '' '', key_defaultPrevented = False\<rparr>
       = [TheKeyboardEvent \<lparr>key = str '' '', key_defaultPrevented = True\<rparr>]
   \<and> handleKeyDown dodoBird \<lparr>key = str ''Enter'', key_defaultPrevented = False\<rparr>
       \<noteq> handleClick dodoBird
   \<and> handleLearnMoreClick dodoBird \<lparr>propagationStopped = False\<rparr>
       = [TheMouseEvent \<lparr>propagationStopped = True\<rparr>]
   \<and> renderer_handleKeydown \<lparr>key = str ''Enter'', key_defaultPrevented = False\<rparr>
         [str ''event''] 0
       = (\<lparr>key = str ''Enter'', key_defaultPrevented = True\<rparr>, 1)"
  by (simp add: handleClick_def handleKeyDown_def handleLearnMoreClick_def
      renderer_handleKeydown_def)

section \<open>Properties of the event repository\<close>

subsection \<open>Sorting\<close>

lemma positive_js_minus: "positive (js_minus x y) = (\<not> number_le x y)"
  by (cases x; cases y) auto

lemma number_le_refl: "number_le x x"
  by (cases x) auto

lemma number_le_total: "\<not> number_le x y \<Longrightarrow> number_le y x"
  by (cases x; cases y) auto

lemma number_le_trans: "number_le x y \<Longrightarrow> number_le y z \<Longrightarrow> number_le x z"
  by (cases x; cases y; cases z) auto

lemma set_insert_sorted: "set (insert_sorted c x ys) = insert x (set ys)"
  by (induction ys) auto

lemma mset_insert_sorted: "mset (insert_sorted c x ys) = add_mset x (mset ys)"
  by (induction ys) auto

lemma sorted_insert_sorted:
  "sorted_wrt (\<lambda>a b. number_le (year a) (year b)) ys \<Longrightarrow>
   sorted_wrt (\<lambda>a b. number_le (year a) (year b))
     (insert_sorted (\<lambda>a b. js_minus (year a) (year b)) x ys)"
proof (induction ys)
  case Nil
  then show ?case by simp
next
  case (Cons y ys)
  show ?case
  proof (cases "number_le (year x) (year y)")
    case True
    then have "\<forall>z\<in>set ys. number_le (year x) (year z)"
      using Cons.prems by (auto intro: number_le_trans)
    then show ?thesis using True Cons.prems by (simp add: positive_js_minus)
  next
    case False
    then have "number_le (year y) (year x)" by (rule number_le_total)
    then show ?thesis
      using False Cons by (auto simp: positive_js_minus set_insert_sorted)
  qed
qed

text \<open>An element never moves behind one of its own year: the sort is stable.\<close>

lemma filter_insert_sorted:
  "filter (\<lambda>e. year e = k) (insert_sorted (\<lambda>a b. js_minus (year a) (year b)) x ys)
     = (if year x = k then x # filter (\<lambda>e. year e = k) ys else filter (\<lambda>e. year e = k) ys)"
  by (induction ys) (auto simp: positive_js_minus number_le_refl)

lemma sorted_sortEventsByYear:
  "sorted_wrt (\<lambda>a b. number_le (year a) (year b)) (sortEventsByYear xs)"
  unfolding sortEventsByYear_def array_sort_def
  by (induction xs) (simp_all add: sorted_insert_sorted)

lemma mset_sortEventsByYear: "mset (sortEventsByYear xs) = mset xs"
  unfolding sortEventsByYear_def array_sort_def
  by (induction xs) (simp_all add: mset_insert_sorted)

lemma set_sortEventsByYear: "set (sortEventsByYear xs) = set xs"
  using mset_sortEventsByYear [of xs] by (metis set_mset_mset)

lemma filter_sortEventsByYear:
  "filter (\<lambda>e. year e = k) (sortEventsByYear xs) = filter (\<lambda>e. year e = k) xs"
  unfolding sortEventsByYear_def array_sort_def
  by (induction xs) (simp_all add: filter_insert_sorted)

lemma fetchEvents_ok:
  "response_ok r \<Longrightarrow> response_json r = Some data \<Longrightarrow> validateResponse data = Inr events \<Longrightarrow>
   fetchEvents (Some r) = Inr (sortEventsByYear events)"
  by (simp add: fetchEvents_def and_then_def)

lemma hook_fetchEvents_ok:
  "response_ok r \<Longrightarrow> response_json r = Some data \<Longrightarrow>
   and_then (dataEvents data) validateEvents = Inr events \<Longrightarrow>
   hook_fetchEvents (Some r) s
     = s\<lparr>hook_isLoading := False, hook_error := None, hook_events := sortEventsByYear events\<rparr>"
  by (auto simp: hook_fetchEvents_def and_then_def Let_def split: sum.splits)

text \<open>
  C1. When the response is a success whose body passes validation, giving the events
  in the order of the payload, \<open>DataFetcher.fetchEvents\<close> returns, and the hook's
  \<open>fetchEvents\<close> stores, a list that is non-decreasing in \<open>year\<close>, has the same
  events as often as the payload, and keeps the events of any one year in the order
  they have in the payload.
\<close>

theorem load_sorted_by_year_stable:
  "(response_ok r \<and> response_json r = Some data \<and> validateResponse data = Inr events \<longrightarrow>
     (\<exists>sortedEvents. fetchEvents (Some r) = Inr sortedEvents
        \<and> sorted_wrt (\<lambda>a b. number_le (year a) (year b)) sortedEvents
        \<and> mset sortedEvents = mset events
        \<and> (\<forall>y. filter (\<lambda>e. year e = y) sortedEvents = filter (\<lambda>e. year e = y) events)))
   \<and> (response_ok r \<and> response_json r = Some data
        \<and> and_then (dataEvents data) validateEvents = Inr events' \<longrightarrow>
     hook_error (hook_fetchEvents (Some r) s) = None
        \<and> sorted_wrt (\<lambda>a b. number_le (year a) (year b))
             (hook_events (hook_fetchEvents (Some r) s))
        \<and> mset (hook_events (hook_fetchEvents (Some r) s)) = mset events'
        \<and> (\<forall>y. filter (\<lambda>e. year e = y) (hook_events (hook_fetchEvents (Some r) s))
                 = filter (\<lambda>e. year e = y) events'))"
  by (simp add: fetchEvents_ok hook_fetchEvents_ok sorted_sortEventsByYear
      mset_sortEventsByYear filter_sortEventsByYear)

lemma validateResponse_example:
  "validateResponse examplePayload = Inr [tasmanianTiger, dodoBird, otherRecord]"
  by code_simp

lemma validateEvents_example:
  "and_then (dataEvents examplePayload) validateEvents
     = Inr [tasmanianTiger, dodoBird, otherRecord]"
  by code_simp

lemma sortEventsByYear_example:
  "sortEventsByYear [tasmanianTiger, dodoBird, otherRecord]
     = [dodoBird, tasmanianTiger, otherRecord]"
  by code_simp

theorem load_sorted_by_year_stable_witness:
  "response_ok (okResponse examplePayload)
   \<and> response_json (okResponse examplePayload) = Some examplePayload
   \<and> validateResponse examplePayload = Inr [tasmanianTiger, dodoBird, otherRecord]
   \<and> and_then (dataEvents examplePayload) validateEvents
        = Inr [tasmanianTiger, dodoBird, otherRecord]
   \<and> fetchEvents (Some (okResponse examplePayload))
        = Inr [dodoBird, tasmanianTiger, otherRecord]
   \<and> hook_events (hook_fetchEvents (Some (okResponse examplePayload)) useExtinctionEvents_initial)
        = [dodoBird, tasmanianTiger, otherRecord]
   \<and> sorted_wrt (\<lambda>a b. number_le (year a) (year b)) [dodoBird, tasmanianTiger, otherRecord]
   \<and> filter (\<lambda>e. year e = Finite 1936) [dodoBird, tasmanianTiger, otherRecord]
        = filter (\<lambda>e. year e = Finite 1936) [tasmanianTiger, dodoBird, otherRecord]"
proof -
  have ok: "response_ok (okResponse examplePayload)"
    and body: "response_json (okResponse examplePayload) = Some examplePayload"
    by (simp_all add: okResponse_def)
  note inst = load_sorted_by_year_stable
      [of "okResponse examplePayload" examplePayload "[tasmanianTiger, dodoBird, otherRecord]"
          "[tasmanianTiger, dodoBird, otherRecord]" useExtinctionEvents_initial]
  have fetched: "fetchEvents (Some (okResponse examplePayload))
        = Inr [dodoBird, tasmanianTiger, otherRecord]"
    using ok body validateResponse_example sortEventsByYear_example
    by (simp add: fetchEvents_ok)
  have stored: "hook_events (hook_fetchEvents (Some (okResponse examplePayload))
        useExtinctionEvents_initial) = [dodoBird, tasmanianTiger, otherRecord]"
    using ok body validateEvents_example sortEventsByYear_example
    by (simp add: hook_fetchEvents_ok)
  from inst ok body validateResponse_example validateEvents_example fetched stored
  show ?thesis by simp
qed

subsection \<open>Validation\<close>

lemma and_then_InlE:
  assumes "and_then r f = Inl e"
  obtains "r = Inl e" | a where "r = Inr a" and "f a = Inl e"
  using assms by (cases r) (auto simp: and_then_def)

lemma and_then_InrE:
  assumes "and_then r f = Inr v"
  obtains a where "r = Inr a" and "f a = Inr v"
  using assms by (cases r) (auto simp: and_then_def)

lemma validateNumber_Inl: "validateNumber v i f = Inl err \<Longrightarrow> err = MustBeValidNumber i f"
  by (auto simp: validateNumber_def split: option.splits json.splits js_number.splits)

lemma validateString_Inl: "validateString v i f = Inl err \<Longrightarrow> err = MustBeNonEmptyString i f"
  by (auto simp: validateString_def split: option.splits json.splits if_splits)

lemma validateCategory_Inl: "validateCategory v i f = Inl err \<Longrightarrow> err = MustBeOneOfCategories i f"
  by (auto simp: validateCategory_def split: option.splits json.splits)

lemma validateNumber_Inr:
  "validateNumber v i f = Inr n \<Longrightarrow> \<exists>r. v = Some (JNumber (Finite r)) \<and> n = Finite r"
  by (auto simp: validateNumber_def split: option.splits json.splits js_number.splits)

lemma validateString_Inr:
  "validateString v i f = Inr s \<Longrightarrow> \<exists>t. v = Some (JString t) \<and> s = trim t \<and> trim t \<noteq> []"
  by (auto simp: validateString_def split: option.splits json.splits if_splits)

lemma validateCategory_Inr:
  "validateCategory v i f = Inr c \<Longrightarrow> \<exists>t. v = Some (JString t) \<and> toCategory t = Some c"
  by (auto simp: validateCategory_def split: option.splits json.splits)

lemma validateEvent_Inl:
  assumes "validateEvent e i = Inl err"
  shows "error_index err = Some i"
    and "isObject e \<Longrightarrow> \<exists>field \<in> set requiredFields. error_field err = Some field"
proof -
  show "error_index err = Some i"
  proof (cases "isObject e")
    case False
    then show ?thesis using assms by (auto simp: validateEvent_def)
  next
    case True
    show ?thesis
    proof (cases "find (isMissing e) requiredFields")
      case (Some field)
      then show ?thesis using assms True by (auto simp: validateEvent_def)
    next
      case None
      then have "and_then (validateNumber (property e ''id'') i ''id'') (\<lambda>v_id.
          and_then (validateNumber (property e ''year'') i ''year'') (\<lambda>v_year.
          and_then (validateString (property e ''title'') i ''title'') (\<lambda>v_title.
          and_then (validateString (property e ''description'') i ''description'') (\<lambda>v_description.
          and_then (validateString (property e ''imageURL'') i ''imageURL'') (\<lambda>v_imageURL.
          and_then (validateCategory (property e ''category'') i ''category'') (\<lambda>v_category.
          and_then (validateString (property e ''location'') i ''location'') (\<lambda>v_location.
          and_then (validateString (property e ''cause'') i ''cause'') (\<lambda>v_cause.
            Inr \<lparr>event_id = v_id, year = v_year, title = v_title,
                 description = v_description, imageURL = v_imageURL,
                 category = v_category, location = v_location, cause = v_cause\<rparr>)))))))) = Inl err"
        using assms True by (simp add: validateEvent_def)
      then show ?thesis
        by (auto elim!: and_then_InlE dest!: validateNumber_Inl validateString_Inl validateCategory_Inl)
    qed
  qed
next
  assume obj: "isObject e"
  show "\<exists>field \<in> set requiredFields. error_field err = Some field"
  proof (cases "find (isMissing e) requiredFields")
    case (Some field)
    then have "field \<in> set requiredFields" by (auto simp: find_Some_iff)
    then show ?thesis using assms obj Some by (auto simp: validateEvent_def)
  next
    case None
    then have "and_then (validateNumber (property e ''id'') i ''id'') (\<lambda>v_id.
          and_then (validateNumber (property e ''year'') i ''year'') (\<lambda>v_year.
          and_then (validateString (property e ''title'') i ''title'') (\<lambda>v_title.
          and_then (validateString (property e ''description'') i ''description'') (\<lambda>v_description.
          and_then (validateString (property e ''imageURL'') i ''imageURL'') (\<lambda>v_imageURL.
          and_then (validateCategory (property e ''category'') i ''category'') (\<lambda>v_category.
          and_then (validateString (property e ''location'') i ''location'') (\<lambda>v_location.
          and_then (validateString (property e ''cause'') i ''cause'') (\<lambda>v_cause.
            Inr \<lparr>event_id = v_id, year = v_year, title = v_title,
                 description = v_description, imageURL = v_imageURL,
                 category = v_category, location = v_location, cause = v_cause\<rparr>)))))))) = Inl err"
      using assms obj by (simp add: validateEvent_def)
    then show ?thesis
      by (auto elim!: and_then_InlE dest!: validateNumber_Inl validateString_Inl validateCategory_Inl
          simp: requiredFields_def)
  qed
qed

lemma validateNumber_fails:
  "validateNumber v i f = Inl err \<Longrightarrow> isl (validateNumber v 0 f)"
  by (auto simp: validateNumber_def split: option.splits json.splits js_number.splits)

lemma validateString_fails:
  "validateString v i f = Inl err \<Longrightarrow> isl (validateString v 0 f)"
  by (auto simp: validateString_def split: option.splits json.splits if_splits)

lemma validateCategory_fails:
  "validateCategory v i f = Inl err \<Longrightarrow> isl (validateCategory v 0 f)"
  by (auto simp: validateCategory_def split: option.splits json.splits)

lemma validateEvent_Inl_field:
  assumes "validateEvent e i = Inl err" and obj: "isObject e"
  shows "\<exists>field \<in> set requiredFields. error_field err = Some field \<and> fieldCheckFails e field"
proof (cases "find (isMissing e) requiredFields")
  case (Some field)
  then have "field \<in> set requiredFields" and "isMissing e field"
    by (auto simp: find_Some_iff)
  moreover have "err = MissingRequiredField i field"
    using assms Some by (auto simp: validateEvent_def)
  ultimately show ?thesis by (auto simp: fieldCheckFails_def)
next
  case None
  then have chain: "and_then (validateNumber (property e ''id'') i ''id'') (\<lambda>v_id.
          and_then (validateNumber (property e ''year'') i ''year'') (\<lambda>v_year.
          and_then (validateString (property e ''title'') i ''title'') (\<lambda>v_title.
          and_then (validateString (property e ''description'') i ''description'') (\<lambda>v_description.
          and_then (validateString (property e ''imageURL'') i ''imageURL'') (\<lambda>v_imageURL.
          and_then (validateCategory (property e ''category'') i ''category'') (\<lambda>v_category.
          and_then (validateString (property e ''location'') i ''location'') (\<lambda>v_location.
          and_then (validateString (property e ''cause'') i ''cause'') (\<lambda>v_cause.
            Inr \<lparr>event_id = v_id, year = v_year, title = v_title,
                 description = v_description, imageURL = v_imageURL,
                 category = v_category, location = v_location, cause = v_cause\<rparr>)))))))) = Inl err"
    using assms by (simp add: validateEvent_def)
  have number: "validateNumber (property e f) i f = Inl err \<Longrightarrow> f = ''id'' \<or> f = ''year'' \<Longrightarrow>
      error_field err = Some f \<and> fieldCheckFails e f" for f
    using validateNumber_Inl [of "property e f" i f err] validateNumber_fails [of "property e f" i f err]
    by (auto simp: fieldCheckFails_def)
  have category: "validateCategory (property e ''category'') i ''category'' = Inl err \<Longrightarrow>
      error_field err = Some ''category'' \<and> fieldCheckFails e ''category''"
    using validateCategory_Inl [of "property e ''category''" i "''category''" err]
      validateCategory_fails [of "property e ''category''" i "''category''" err]
    by (auto simp: fieldCheckFails_def)
  have strings: "validateString (property e f) i f = Inl err \<Longrightarrow>
      f \<noteq> ''id'' \<Longrightarrow> f \<noteq> ''year'' \<Longrightarrow> f \<noteq> ''category'' \<Longrightarrow>
      error_field err = Some f \<and> fieldCheckFails e f" for f
    using validateString_Inl [of "property e f" i f err] validateString_fails [of "property e f" i f err]
    by (auto simp: fieldCheckFails_def)
  from chain consider
      "validateNumber (property e ''id'') i ''id'' = Inl err"
    | "validateNumber (property e ''year'') i ''year'' = Inl err"
    | "validateString (property e ''title'') i ''title'' = Inl err"
    | "validateString (property e ''description'') i ''description'' = Inl err"
    | "validateString (property e ''imageURL'') i ''imageURL'' = Inl err"
    | "validateCategory (property e ''category'') i ''category'' = Inl err"
    | "validateString (property e ''location'') i ''location'' = Inl err"
    | "validateString (property e ''cause'') i ''cause'' = Inl err"
    by (elim and_then_InlE) auto
  then show ?thesis
  proof cases
    case 1
    from number [OF 1] show ?thesis by (intro bexI [of _ "''id''"]) (simp_all add: requiredFields_def)
  next
    case 2
    from number [OF 2] show ?thesis by (intro bexI [of _ "''year''"]) (simp_all add: requiredFields_def)
  next
    case 3
    from strings [OF 3] show ?thesis by (intro bexI [of _ "''title''"]) (simp_all add: requiredFields_def)
  next
    case 4
    from strings [OF 4] show ?thesis
      by (intro bexI [of _ "''description''"]) (simp_all add: requiredFields_def)
  next
    case 5
    from strings [OF 5] show ?thesis
      by (intro bexI [of _ "''imageURL''"]) (simp_all add: requiredFields_def)
  next
    case 6
    from category [OF 6] show ?thesis
      by (intro bexI [of _ "''category''"]) (simp_all add: requiredFields_def)
  next
    case 7
    from strings [OF 7] show ?thesis
      by (intro bexI [of _ "''location''"]) (simp_all add: requiredFields_def)
  next
    case 8
    from strings [OF 8] show ?thesis by (intro bexI [of _ "''cause''"]) (simp_all add: requiredFields_def)
  qed
qed

lemma validateEvent_Inr:
  assumes "validateEvent e i = Inr ev"
  shows "isObject e"
    and "\<exists>r. property e ''id'' = Some (JNumber (Finite r)) \<and> event_id ev = Finite r"
    and "\<exists>r. property e ''year'' = Some (JNumber (Finite r)) \<and> year ev = Finite r"
    and "\<exists>t. property e ''title'' = Some (JString t) \<and> title ev = trim t \<and> trim t \<noteq> []"
    and "\<exists>t. property e ''description'' = Some (JString t) \<and> description ev = trim t \<and> trim t \<noteq> []"
    and "\<exists>t. property e ''imageURL'' = Some (JString t) \<and> imageURL ev = trim t \<and> trim t \<noteq> []"
    and "\<exists>t. property e ''category'' = Some (JString t) \<and> toCategory t = Some (category ev)"
    and "\<exists>t. property e ''location'' = Some (JString t) \<and> location ev = trim t \<and> trim t \<noteq> []"
    and "\<exists>t. property e ''cause'' = Some (JString t) \<and> cause ev = trim t \<and> trim t \<noteq> []"
proof -
  show obj: "isObject e" using assms by (auto simp: validateEvent_def split: if_splits)
  have "find (isMissing e) requiredFields = None"
    using assms obj by (auto simp: validateEvent_def split: option.splits)
  then have chain: "and_then (validateNumber (property e ''id'') i ''id'') (\<lambda>v_id.
          and_then (validateNumber (property e ''year'') i ''year'') (\<lambda>v_year.
          and_then (validateString (property e ''title'') i ''title'') (\<lambda>v_title.
          and_then (validateString (property e ''description'') i ''description'') (\<lambda>v_description.
          and_then (validateString (property e ''imageURL'') i ''imageURL'') (\<lambda>v_imageURL.
          and_then (validateCategory (property e ''category'') i ''category'') (\<lambda>v_category.
          and_then (validateString (property e ''location'') i ''location'') (\<lambda>v_location.
          and_then (validateString (property e ''cause'') i ''cause'') (\<lambda>v_cause.
            Inr \<lparr>event_id = v_id, year = v_year, title = v_title,
                 description = v_description, imageURL = v_imageURL,
                 category = v_category, location = v_location, cause = v_cause\<rparr>)))))))) = Inr ev"
    using assms obj by (simp add: validateEvent_def)
  from chain obtain a1 a2 a3 a4 a5 a6 a7 a8 where
    v: "validateNumber (property e ''id'') i ''id'' = Inr a1"
       "validateNumber (property e ''year'') i ''year'' = Inr a2"
       "validateString (property e ''title'') i ''title'' = Inr a3"
       "validateString (property e ''description'') i ''description'' = Inr a4"
       "validateString (property e ''imageURL'') i ''imageURL'' = Inr a5"
       "validateCategory (property e ''category'') i ''category'' = Inr a6"
       "validateString (property e ''location'') i ''location'' = Inr a7"
       "validateString (property e ''cause'') i ''cause'' = Inr a8"
    and ev: "ev = \<lparr>event_id = a1, year = a2, title = a3, description = a4, imageURL = a5,
                   category = a6, location = a7, cause = a8\<rparr>"
    by (elim and_then_InrE) auto
  show "\<exists>r. property e ''id'' = Some (JNumber (Finite r)) \<and> event_id ev = Finite r"
    using validateNumber_Inr [OF v(1)] ev by simp
  show "\<exists>r. property e ''year'' = Some (JNumber (Finite r)) \<and> year ev = Finite r"
    using validateNumber_Inr [OF v(2)] ev by simp
  show "\<exists>t. property e ''title'' = Some (JString t) \<and> title ev = trim t \<and> trim t \<noteq> []"
    using validateString_Inr [OF v(3)] ev by simp
  show "\<exists>t. property e ''description'' = Some (JString t) \<and> description ev = trim t \<and> trim t \<noteq> []"
    using validateString_Inr [OF v(4)] ev by simp
  show "\<exists>t. property e ''imageURL'' = Some (JString t) \<and> imageURL ev = trim t \<and> trim t \<noteq> []"
    using validateString_Inr [OF v(5)] ev by simp
  show "\<exists>t. property e ''category'' = Some (JString t) \<and> toCategory t = Some (category ev)"
    using validateCategory_Inr [OF v(6)] ev by simp
  show "\<exists>t. property e ''location'' = Some (JString t) \<and> location ev = trim t \<and> trim t \<noteq> []"
    using validateString_Inr [OF v(7)] ev by simp
  show "\<exists>t. property e ''cause'' = Some (JString t) \<and> cause ev = trim t \<and> trim t \<noteq> []"
    using validateString_Inr [OF v(8)] ev by simp
qed


lemma validateEach_Inr:
  "validateEach k es = Inr evs \<Longrightarrow>
   length evs = length es \<and> (\<forall>j < length es. validateEvent (es ! j) (k + j) = Inr (evs ! j))"
proof (induction es arbitrary: k evs)
  case Nil
  then show ?case by simp
next
  case (Cons e es)
  from Cons.prems obtain v others where
    v: "validateEvent e k = Inr v" and rest: "validateEach (k + 1) es = Inr others"
    and evs: "evs = v # others"
    by (auto elim!: and_then_InrE)
  from Cons.IH [OF rest] have len: "length others = length es"
    and ih: "\<forall>j < length es. validateEvent (es ! j) (k + 1 + j) = Inr (others ! j)" by auto
  show ?case
  proof (intro conjI allI impI)
    show "length evs = length (e # es)" using len evs by simp
  next
    fix j assume "j < length (e # es)"
    then show "validateEvent ((e # es) ! j) (k + j) = Inr (evs ! j)"
      using v ih evs by (cases j) auto
  qed
qed

lemma validateEach_Inl:
  "validateEach k es = Inl err \<Longrightarrow>
   \<exists>i < length es. validateEvent (es ! i) (k + i) = Inl err
      \<and> (\<forall>j < i. \<exists>v. validateEvent (es ! j) (k + j) = Inr v)"
proof (induction es arbitrary: k)
  case Nil
  then show ?case by simp
next
  case (Cons e es)
  show ?case
  proof (cases "validateEvent e k")
    case (Inl a)
    then have "validateEvent ((e # es) ! 0) (k + 0) = Inl err"
      using Cons.prems by (simp add: and_then_def)
    then show ?thesis by (intro exI [of _ 0]) simp
  next
    case (Inr v)
    then have "validateEach (k + 1) es = Inl err"
      using Cons.prems by (auto simp: and_then_def split: sum.splits)
    from Cons.IH [OF this] obtain i where i: "i < length es"
      and bad: "validateEvent (es ! i) (k + 1 + i) = Inl err"
      and good: "\<forall>j < i. \<exists>v. validateEvent (es ! j) (k + 1 + j) = Inr v" by auto
    have "\<forall>j < Suc i. \<exists>v. validateEvent ((e # es) ! j) (k + j) = Inr v"
    proof (intro allI impI)
      fix j assume "j < Suc i"
      then show "\<exists>v. validateEvent ((e # es) ! j) (k + j) = Inr v"
        using Inr good by (cases j) auto
    qed
    then show ?thesis using i bad by (intro exI [of _ "Suc i"]) simp
  qed
qed

lemma validateEventsFrom_Inr:
  "validateEventsFrom k es = Inr evs \<Longrightarrow>
   evs = map asExtinctionEvent es \<and> (\<forall>e \<in> set es. isValidEvent e)"
proof (induction es arbitrary: k evs)
  case Nil
  then show ?case by simp
next
  case (Cons e es)
  from Cons.prems have valid: "isValidEvent e" by (auto split: if_splits)
  with Cons.prems obtain others where rest: "validateEventsFrom (k + 1) es = Inr others"
    and evs: "evs = asExtinctionEvent e # others"
    by (auto elim!: and_then_InrE)
  from Cons.IH [OF rest] show ?case using valid evs by simp
qed

lemma validateEventsFrom_Inl:
  "validateEventsFrom k es = Inl err \<Longrightarrow>
   \<exists>i < length es. err = InvalidEventAtIndex (k + i) \<and> \<not> isValidEvent (es ! i)
      \<and> (\<forall>j < i. isValidEvent (es ! j))"
proof (induction es arbitrary: k)
  case Nil
  then show ?case by simp
next
  case (Cons e es)
  show ?case
  proof (cases "isValidEvent e")
    case False
    then have "err = InvalidEventAtIndex (k + 0) \<and> \<not> isValidEvent ((e # es) ! 0)"
      using Cons.prems by simp
    then show ?thesis by (intro exI [of _ 0]) simp
  next
    case True
    then have "validateEventsFrom (k + 1) es = Inl err"
      using Cons.prems by (auto simp: and_then_def split: sum.splits)
    from Cons.IH [OF this] obtain i where i: "i < length es"
      and bad: "err = InvalidEventAtIndex (k + 1 + i)" "\<not> isValidEvent (es ! i)"
      and good: "\<forall>j < i. isValidEvent (es ! j)" by auto
    have "\<forall>j < Suc i. isValidEvent ((e # es) ! j)"
    proof (intro allI impI)
      fix j assume "j < Suc i"
      then show "isValidEvent ((e # es) ! j)"
        using True good by (cases j) auto
    qed
    then show ?thesis using i bad by (intro exI [of _ "Suc i"]) simp
  qed
qed

lemma malformedEvent_rejected:
  assumes "malformedEvent e"
  shows "\<exists>err. validateEvent e i = Inl err"
proof (cases "validateEvent e i")
  case (Inl err)
  then show ?thesis by simp
next
  case (Inr ev)
  note ok = validateEvent_Inr [OF Inr]
  have "\<not> malformedEvent e"
    using ok(2-9) by (auto simp: malformedEvent_def requiredFields_def wrongKind_def)
  then show ?thesis using assms by simp
qed

lemma isValidEvent_fields:
  assumes "isValidEvent e"
  shows "isNumber (property e ''id'')" "isNumber (property e ''year'')"
    "isString (property e ''title'')" "isString (property e ''description'')"
    "isString (property e ''imageURL'')" "isString (property e ''category'')"
    "isString (property e ''location'')" "isString (property e ''cause'')"
    "\<exists>s. property e ''category'' = Some (JString s) \<and> toCategory s \<noteq> None"
proof -
  have all: "isNumber (property e ''id'') \<and>
          isNumber (property e ''year'') \<and>
          isString (property e ''title'') \<and>
          isString (property e ''description'') \<and>
          isString (property e ''imageURL'') \<and>
          isString (property e ''category'') \<and>
          isString (property e ''location'') \<and>
          isString (property e ''cause'') \<and>
          (case property e ''category'' of
             Some (JString s) \<Rightarrow> toCategory s \<noteq> None | _ \<Rightarrow> False)"
    using assms unfolding isValidEvent_def by (cases e) simp_all
  then show "isNumber (property e ''id'')" "isNumber (property e ''year'')"
    "isString (property e ''title'')" "isString (property e ''description'')"
    "isString (property e ''imageURL'')" "isString (property e ''category'')"
    "isString (property e ''location'')" "isString (property e ''cause'')"
    by simp_all
  from all have "case property e ''category'' of
             Some (JString s) \<Rightarrow> toCategory s \<noteq> None | _ \<Rightarrow> False" by simp
  then show "\<exists>s. property e ''category'' = Some (JString s) \<and> toCategory s \<noteq> None"
    by (cases "property e ''category''") (auto split: json.splits)
qed

lemma isNumber_kind: "isNumber v \<Longrightarrow> \<exists>n. v = Some (JNumber n)"
  by (auto simp: isNumber_def split: option.splits json.splits)

lemma isString_kind: "isString v \<Longrightarrow> \<exists>s. v = Some (JString s)"
  by (auto simp: isString_def split: option.splits json.splits)

lemma malformedEvent_invalid:
  assumes "malformedEvent e"
  shows "\<not> isValidEvent e"
proof
  assume v: "isValidEvent e"
  note f = isValidEvent_fields [OF v]
  obtain n1 n2 s1 s2 s3 s4 s5 s6 where p:
    "property e ''id'' = Some (JNumber n1)" "property e ''year'' = Some (JNumber n2)"
    "property e ''title'' = Some (JString s1)" "property e ''description'' = Some (JString s2)"
    "property e ''imageURL'' = Some (JString s3)" "property e ''category'' = Some (JString s4)"
    "property e ''location'' = Some (JString s5)" "property e ''cause'' = Some (JString s6)"
    using isNumber_kind [OF f(1)] isNumber_kind [OF f(2)] isString_kind [OF f(3)]
      isString_kind [OF f(4)] isString_kind [OF f(5)] isString_kind [OF f(6)]
      isString_kind [OF f(7)] isString_kind [OF f(8)] by blast
  have "toCategory s4 \<noteq> None" using f(9) p(6) by simp
  then have "\<not> malformedEvent e"
    using p by (simp add: malformedEvent_def requiredFields_def wrongKind_def)
  then show False using assms by simp
qed

lemma trim_idem: "trim (trim s) = trim s"
proof -
  define ys where "ys = dropWhile isWhiteSpace s"
  define zs where "zs = dropWhile isWhiteSpace (rev ys)"
  have t: "trim s = rev zs" by (simp add: trim_def ys_def zs_def)
  show ?thesis
  proof (cases "zs = []")
    case True
    then have "trim s = []" using t by simp
    moreover have "trim [] = []" by (simp add: trim_def)
    ultimately show ?thesis by simp
  next
    case False
    have hz: "\<not> isWhiteSpace (hd zs)" using False unfolding zs_def by (rule hd_dropWhile)
    have "suffix zs (rev ys)" unfolding zs_def by (rule suffix_dropWhile)
    then obtain u where u: "rev ys = u @ zs" by (auto simp: suffix_def)
    then have ys: "ys = rev zs @ rev u" by (metis rev_append rev_rev_ident)
    have "ys \<noteq> []" using ys False by simp
    then have "\<not> isWhiteSpace (hd ys)" unfolding ys_def by (rule hd_dropWhile)
    moreover have "hd ys = hd (rev zs)" using ys False by simp
    ultimately have "dropWhile isWhiteSpace (rev zs) = rev zs"
      using False by (cases "rev zs") auto
    moreover have "dropWhile isWhiteSpace zs = zs" using hz False by (cases zs) auto
    ultimately show ?thesis using t by (simp add: trim_def)
  qed
qed

lemma fetchEvents_Inr:
  "fetchEvents fetched = Inr events \<Longrightarrow>
   \<exists>r data validated. fetched = Some r \<and> response_ok r \<and> response_json r = Some data
      \<and> validateResponse data = Inr validated \<and> events = sortEventsByYear validated"
  by (auto simp: fetchEvents_def and_then_def createTimelineError_def
      split: option.splits if_splits sum.splits)

lemma validateResponse_eventsOf:
  "hasEventsArray data \<Longrightarrow> validateResponse data = validateEach 0 (eventsOf data)"
  by (auto simp: hasEventsArray_def validateResponse_def eventsOf_def
      split: option.splits json.splits)

lemma validateResponse_no_array:
  "\<not> hasEventsArray data \<Longrightarrow> \<exists>err. validateResponse data = Inl err"
  by (auto simp: hasEventsArray_def validateResponse_def split: option.splits json.splits)

lemma validateResponse_Inr:
  "validateResponse data = Inr validated \<Longrightarrow>
   hasEventsArray data \<and> validateEach 0 (eventsOf data) = Inr validated"
  using validateResponse_no_array [of data] validateResponse_eventsOf [of data]
  by (cases "hasEventsArray data") auto

lemma validated_event_fields:
  assumes "validateEvent j i = Inr e"
  shows "(\<exists>r. event_id e = Finite r) \<and> (\<exists>r. year e = Finite r)
     \<and> title e \<noteq> [] \<and> trim (title e) = title e
     \<and> description e \<noteq> [] \<and> trim (description e) = description e
     \<and> imageURL e \<noteq> [] \<and> trim (imageURL e) = imageURL e
     \<and> location e \<noteq> [] \<and> trim (location e) = location e
     \<and> cause e \<noteq> [] \<and> trim (cause e) = cause e"
  using validateEvent_Inr(2-6,8,9) [OF assms] by (auto simp: trim_idem)

text \<open>
  C3 as the code has it. In every list a successful \<open>fetchEvents\<close> returns, each
  event has a finite number for \<open>id\<close> and for \<open>year\<close>, and its title, description,
  image URL, location and cause are trimmed and not empty. Nothing in the loader asks
  for integers or compares the \<open>id\<close>s of different events.
\<close>

theorem loaded_events_validated:
  "fetchEvents fetched = Inr events \<and> e \<in> set events \<longrightarrow>
     (\<exists>r. event_id e = Finite r) \<and> (\<exists>r. year e = Finite r)
     \<and> title e \<noteq> [] \<and> trim (title e) = title e
     \<and> description e \<noteq> [] \<and> trim (description e) = description e
     \<and> imageURL e \<noteq> [] \<and> trim (imageURL e) = imageURL e
     \<and> location e \<noteq> [] \<and> trim (location e) = location e
     \<and> cause e \<noteq> [] \<and> trim (cause e) = cause e"
proof (intro impI, elim conjE)
  assume f: "fetchEvents fetched = Inr events" and e: "e \<in> set events"
  from fetchEvents_Inr [OF f] obtain data validated where
    v: "validateResponse data = Inr validated" and s: "events = sortEventsByYear validated"
    by blast
  from e s have "e \<in> set validated" by (simp add: set_sortEventsByYear)
  then obtain j where j: "j < length validated" and ej: "validated ! j = e"
    by (auto simp: in_set_conv_nth)
  from validateResponse_Inr [OF v] have "validateEach 0 (eventsOf data) = Inr validated" by simp
  from validateEach_Inr [OF this] j ej have "validateEvent (eventsOf data ! j) (0 + j) = Inr e"
    by auto
  then show "(\<exists>r. event_id e = Finite r) \<and> (\<exists>r. year e = Finite r)
     \<and> title e \<noteq> [] \<and> trim (title e) = title e
     \<and> description e \<noteq> [] \<and> trim (description e) = description e
     \<and> imageURL e \<noteq> [] \<and> trim (imageURL e) = imageURL e
     \<and> location e \<noteq> [] \<and> trim (location e) = location e
     \<and> cause e \<noteq> [] \<and> trim (cause e) = cause e"
    by (rule validated_event_fields)
qed

lemma fetch_padded:
  "fetchEvents (Some (okResponse (JObject [(str ''events'', JArray [paddedJson])]))) = Inr [dodoBird]"
  by code_simp

theorem loaded_events_validated_witness:
  "fetchEvents (Some (okResponse (JObject [(str ''events'', JArray [paddedJson])]))) = Inr [dodoBird]
   \<and> dodoBird \<in> set [dodoBird]
   \<and> event_id dodoBird = Finite 2 \<and> year dodoBird = Finite 1662
   \<and> title dodoBird = str ''Dodo Bird'' \<and> trim (title dodoBird) = title dodoBird
   \<and> trim (cause dodoBird) = cause dodoBird"
proof -
  have m: "dodoBird \<in> set [dodoBird]" by simp
  from loaded_events_validated
      [of "Some (okResponse (JObject [(str ''events'', JArray [paddedJson])]))" "[dodoBird]" dodoBird]
    fetch_padded m
  have "trim (title dodoBird) = title dodoBird \<and> trim (cause dodoBird) = cause dodoBird"
    by simp
  then show ?thesis using fetch_padded by (simp add: dodoBird_def)
qed

lemma fetch_fractional:
  "fetchEvents (Some (okResponse (JObject [(str ''events'', JArray [fractionalJson, fractionalJson])])))
     = Inr [fractionalRecord, fractionalRecord]"
  by code_simp

lemma fractional_not_integer:
  "\<not> isInteger (Finite (1/2))" "\<not> isInteger (Finite (3873/2))"
  by (code_simp)+

text \<open>
  The claim as stated fails: a payload with the same record twice, whose \<open>id\<close> is 0.5
  and whose \<open>year\<close> is 1936.5, loads.
\<close>

theorem fractional_duplicate_ids_load:
  "fetchEvents (Some (okResponse (JObject [(str ''events'', JArray [fractionalJson, fractionalJson])])))
     = Inr [fractionalRecord, fractionalRecord]
   \<and> \<not> distinct (map event_id [fractionalRecord, fractionalRecord])
   \<and> \<not> isInteger (event_id fractionalRecord)
   \<and> \<not> isInteger (year fractionalRecord)
   \<and> \<not> meetsDataModel [fractionalRecord, fractionalRecord]"
  using fetch_fractional fractional_not_integer
  by (simp add: meetsDataModel_def fractionalRecord_def)

lemma malformedPayload_validateResponse:
  assumes "malformedPayload data"
  shows "\<exists>err. validateResponse data = Inl err"
proof (cases "hasEventsArray data")
  case False
  then show ?thesis by (rule validateResponse_no_array)
next
  case True
  with assms obtain e where e: "e \<in> set (eventsOf data)" and bad: "malformedEvent e"
    by (auto simp: malformedPayload_def)
  show ?thesis
  proof (cases "validateResponse data")
    case (Inl err)
    then show ?thesis by simp
  next
    case (Inr validated)
    from validateResponse_Inr [OF Inr]
    have all: "validateEach 0 (eventsOf data) = Inr validated" by simp
    from e obtain j where j: "j < length (eventsOf data)" and ej: "eventsOf data ! j = e"
      by (auto simp: in_set_conv_nth)
    from validateEach_Inr [OF all] j ej have "validateEvent e (0 + j) = Inr (validated ! j)"
      by auto
    moreover from malformedEvent_rejected [OF bad, of "0 + j"]
    obtain err where "validateEvent e (0 + j) = Inl err" by blast
    ultimately show ?thesis by simp
  qed
qed

lemma fetchEvents_Inl:
  "response_json r = Some data \<Longrightarrow> validateResponse data = Inl err \<Longrightarrow>
   \<exists>err'. fetchEvents (Some r) = Inl err'"
  by (simp add: fetchEvents_def and_then_def createTimelineError_def)

lemma dataEvents_property:
  "dataEvents data = Inl CannotReadProperty \<or> dataEvents data = Inr (property data ''events'')"
  by (cases data) (simp_all add: dataEvents_def)

lemma validateEvents_eventsOf:
  "hasEventsArray data \<Longrightarrow>
   validateEvents (property data ''events'') = validateEventsFrom 0 (eventsOf data)"
  by (auto simp: hasEventsArray_def validateEvents_def eventsOf_def
      split: option.splits json.splits)

lemma validateEvents_no_array:
  "\<not> hasEventsArray data \<Longrightarrow>
   \<exists>err. and_then (dataEvents data) validateEvents = Inl err"
  by (cases data)
    (auto simp: hasEventsArray_def dataEvents_def validateEvents_def and_then_def
      split: option.splits json.splits)

lemma malformedPayload_hook:
  assumes "malformedPayload data"
  shows "\<exists>err. and_then (dataEvents data) validateEvents = Inl err"
proof (cases "hasEventsArray data")
  case False
  then show ?thesis by (rule validateEvents_no_array)
next
  case True
  with assms obtain e where e: "e \<in> set (eventsOf data)" and bad: "malformedEvent e"
    by (auto simp: malformedPayload_def)
  have d: "dataEvents data = Inr (property data ''events'')"
    using True by (cases data) (simp_all add: dataEvents_def hasEventsArray_def)
  show ?thesis
  proof (cases "validateEventsFrom 0 (eventsOf data)")
    case (Inl err)
    then show ?thesis using d True by (simp add: and_then_def validateEvents_eventsOf)
  next
    case (Inr evs)
    from validateEventsFrom_Inr [OF Inr] e have "isValidEvent e" by simp
    then show ?thesis using malformedEvent_invalid [OF bad] by simp
  qed
qed

lemma hook_fetchEvents_fails:
  assumes "response_json r = Some data"
    and "and_then (dataEvents data) validateEvents = Inl err"
  shows "hook_error (hook_fetchEvents (Some r) s) \<noteq> None"
    and "hook_events (hook_fetchEvents (Some r) s) = hook_events s"
    and "\<not> hook_isLoading (hook_fetchEvents (Some r) s)"
    and "response_ok r \<Longrightarrow> hook_error (hook_fetchEvents (Some r) s) = Some err"
  using assms
  by (auto simp: hook_fetchEvents_def Let_def and_then_def split: sum.splits)

lemma hook_validation_error:
  "response_ok r \<Longrightarrow> response_json r = Some data \<Longrightarrow> hasEventsArray data \<Longrightarrow>
   validateEvents (property data ''events'') = Inl err \<Longrightarrow>
   hook_error (hook_fetchEvents (Some r) s) = Some err"
  by (cases data)
    (simp_all add: hasEventsArray_def hook_fetchEvents_def Let_def and_then_def dataEvents_def)

text \<open>
  C2 as the code has it. A malformed payload never loads: \<open>validateResponse\<close>
  raises, \<open>DataFetcher.fetchEvents\<close> returns an error and no list, and the hook sets
  its error and leaves its events as they were. When the top level is as asked, the
  error that \<open>validateResponse\<close> raises names the index of the first element that
  \<open>validateEvent\<close> rejects and, whenever that element is an object, a required
  field that is missing from it or that its validator rejects. The hook's error, on a
  successful response, is \<open>Invalid event at index i\<close> for the first element that
  \<open>isValidEvent\<close> rejects, and names no field. Which error \<open>fetchEvents\<close> hands
  to its caller is no part of the statement.
\<close>

theorem malformed_payload_fails:
  "(malformedPayload data \<and> response_json r = Some data \<longrightarrow>
      (\<exists>err. validateResponse data = Inl err)
      \<and> (\<exists>err. fetchEvents (Some r) = Inl err)
      \<and> hook_error (hook_fetchEvents (Some r) s) \<noteq> None
      \<and> hook_events (hook_fetchEvents (Some r) s) = hook_events s)
   \<and> (hasEventsArray data \<and> validateResponse data = Inl err \<longrightarrow>
      (\<exists>i < length (eventsOf data).
          error_index err = Some i
          \<and> validateEvent (eventsOf data ! i) i = Inl err
          \<and> (\<forall>j < i. \<exists>v. validateEvent (eventsOf data ! j) j = Inr v)
          \<and> (isObject (eventsOf data ! i) \<longrightarrow>
               (\<exists>field \<in> set requiredFields.
                   error_field err = Some field \<and> fieldCheckFails (eventsOf data ! i) field))))
   \<and> (response_ok r \<and> response_json r = Some data \<and> hasEventsArray data
        \<and> validateEvents (property data ''events'') = Inl err' \<longrightarrow>
      hook_error (hook_fetchEvents (Some r) s) = Some err'
      \<and> (\<exists>i < length (eventsOf data).
          err' = InvalidEventAtIndex i
          \<and> \<not> isValidEvent (eventsOf data ! i)
          \<and> (\<forall>j < i. isValidEvent (eventsOf data ! j))
          \<and> error_field err' = None))"
proof (intro conjI impI)
  assume a: "malformedPayload data \<and> response_json r = Some data"
  then obtain err where err: "validateResponse data = Inl err"
    using malformedPayload_validateResponse by blast
  then show "\<exists>err. validateResponse data = Inl err" by blast
  from a err show "\<exists>err. fetchEvents (Some r) = Inl err"
    using fetchEvents_Inl by blast
  from a obtain herr where herr: "and_then (dataEvents data) validateEvents = Inl herr"
    using malformedPayload_hook by blast
  from a herr show "hook_error (hook_fetchEvents (Some r) s) \<noteq> None"
    using hook_fetchEvents_fails(1) by blast
  from a herr show "hook_events (hook_fetchEvents (Some r) s) = hook_events s"
    using hook_fetchEvents_fails(2) by blast
next
  assume a: "hasEventsArray data \<and> validateResponse data = Inl err"
  from a have "validateEach 0 (eventsOf data) = Inl err"
    using validateResponse_eventsOf [of data] by simp
  from validateEach_Inl [OF this] obtain i where i: "i < length (eventsOf data)"
    and bad: "validateEvent (eventsOf data ! i) i = Inl err"
    and good: "\<forall>j < i. \<exists>v. validateEvent (eventsOf data ! j) j = Inr v"
    by auto
  have "error_index err = Some i" using bad by (rule validateEvent_Inl(1))
  moreover have "isObject (eventsOf data ! i) \<longrightarrow>
      (\<exists>field \<in> set requiredFields.
          error_field err = Some field \<and> fieldCheckFails (eventsOf data ! i) field)"
    using validateEvent_Inl_field [OF bad] by blast
  ultimately show "\<exists>i < length (eventsOf data).
          error_index err = Some i
          \<and> validateEvent (eventsOf data ! i) i = Inl err
          \<and> (\<forall>j < i. \<exists>v. validateEvent (eventsOf data ! j) j = Inr v)
          \<and> (isObject (eventsOf data ! i) \<longrightarrow>
               (\<exists>field \<in> set requiredFields.
                   error_field err = Some field \<and> fieldCheckFails (eventsOf data ! i) field))"
    using i bad good by blast
next
  assume a: "response_ok r \<and> response_json r = Some data \<and> hasEventsArray data
        \<and> validateEvents (property data ''events'') = Inl err'"
  then show "hook_error (hook_fetchEvents (Some r) s) = Some err'"
    by (simp add: hook_validation_error)
  from a have "validateEventsFrom 0 (eventsOf data) = Inl err'"
    using validateEvents_eventsOf [of data] by simp
  from validateEventsFrom_Inl [OF this] obtain i where i: "i < length (eventsOf data)"
    and e: "err' = InvalidEventAtIndex i" and bad: "\<not> isValidEvent (eventsOf data ! i)"
    and good: "\<forall>j < i. isValidEvent (eventsOf data ! j)"
    by auto
  have "error_field err' = None" using e by simp
  then show "\<exists>i < length (eventsOf data).
          err' = InvalidEventAtIndex i
          \<and> \<not> isValidEvent (eventsOf data ! i)
          \<and> (\<forall>j < i. isValidEvent (eventsOf data ! j))
          \<and> error_field err' = None"
    using i e bad good by blast
qed

lemma badPayload_malformed: "malformedPayload badPayload"
  by code_simp

lemma badPayload_hasEventsArray: "hasEventsArray badPayload"
  by code_simp

lemma badPayload_validateResponse:
  "validateResponse badPayload = Inl (MissingRequiredField 1 ''year'')"
  by code_simp

lemma badPayload_validateEvents:
  "validateEvents (property badPayload ''events'') = Inl (InvalidEventAtIndex 1)"
  by code_simp

lemma badPayload_fetchEvents:
  "fetchEvents (Some (okResponse badPayload)) = Inl (Inl TimelineErrorNotDefined)"
  by code_simp

lemma badPayload_hook:
  "hook_fetchEvents (Some (okResponse badPayload)) useExtinctionEvents_initial
     = \<lparr>hook_events = [], hook_isLoading = False, hook_error = Some (InvalidEventAtIndex 1),
        hook_activeFilter = All\<rparr>"
  by code_simp

lemma badPayload_year_at_fault: "fieldCheckFails (eventsOf badPayload ! 1) ''year''"
  by code_simp

theorem malformed_payload_fails_witness:
  "malformedPayload badPayload
   \<and> response_json (okResponse badPayload) = Some badPayload
   \<and> hasEventsArray badPayload
   \<and> validateResponse badPayload = Inl (MissingRequiredField 1 ''year'')
   \<and> validateEvents (property badPayload ''events'') = Inl (InvalidEventAtIndex 1)
   \<and> fetchEvents (Some (okResponse badPayload)) = Inl (Inl TimelineErrorNotDefined)
   \<and> hook_error (hook_fetchEvents (Some (okResponse badPayload)) useExtinctionEvents_initial)
        \<noteq> None
   \<and> hook_events (hook_fetchEvents (Some (okResponse badPayload)) useExtinctionEvents_initial)
        = hook_events useExtinctionEvents_initial
   \<and> response_ok (okResponse badPayload)
   \<and> error_index (MissingRequiredField 1 ''year'') = Some 1
   \<and> error_field (MissingRequiredField 1 ''year'') = Some ''year''
   \<and> fieldCheckFails (eventsOf badPayload ! 1) ''year''"
proof -
  have body: "response_json (okResponse badPayload) = Some badPayload"
    by (simp add: okResponse_def)
  note inst = malformed_payload_fails
      [of badPayload "okResponse badPayload" useExtinctionEvents_initial
          "MissingRequiredField 1 ''year''" "InvalidEventAtIndex 1"]
  have ok: "response_ok (okResponse badPayload)"
    by (simp add: okResponse_def)
  from inst badPayload_malformed body
  have h: "hook_error (hook_fetchEvents (Some (okResponse badPayload)) useExtinctionEvents_initial)
        \<noteq> None"
    and k: "hook_events (hook_fetchEvents (Some (okResponse badPayload)) useExtinctionEvents_initial)
        = hook_events useExtinctionEvents_initial"
    by simp_all
  show ?thesis
    using badPayload_malformed body badPayload_hasEventsArray badPayload_validateResponse
      badPayload_validateEvents badPayload_fetchEvents h k ok badPayload_year_at_fault
    by simp
qed

text \<open>
  The claim as stated fails on the hook: for an element without \<open>year\<close> its error
  gives the index and no field name.
\<close>

theorem hook_error_names_no_field:
  "malformedPayload badPayload
   \<and> hook_error (hook_fetchEvents (Some (okResponse badPayload)) useExtinctionEvents_initial)
        = Some (InvalidEventAtIndex 1)
   \<and> error_index (InvalidEventAtIndex 1) = Some 1
   \<and> error_field (InvalidEventAtIndex 1) = None"
  using badPayload_malformed badPayload_hook by simp

end
